theory Spec2Isabelle
  imports Main
begin

section \<open>JavaScript values and string primitives\<close>

text \<open>
  Strings are lists of characters, a character being a code unit below U+0100 (the Latin-1
  range). On such text \<open>toLowerCase\<close> maps \<open>A\<close>..\<open>Z\<close> (U+0041..U+005A) and the
  capital letters U+00C0..U+00D6 and U+00D8..U+00DE to the letter 32 places further on and
  leaves every other character as it is; \<open>trim\<close> strips the white space and line
  terminator characters of JavaScript, which in this range are tab, line feed, vertical
  tab, form feed, carriage return, space and the no-break space U+00A0.
\<close>

definition NL :: string where
  "NL = [CHR 0x0A]"

definition TAB :: string where
  "TAB = [CHR 0x09]"

definition is_space :: "char \<Rightarrow> bool" where
  "is_space c =
     (c \<in> set [CHR 0x09, CHR 0x0A, CHR 0x0B, CHR 0x0C, CHR 0x0D, CHR 0x20, CHR 0xA0])"

definition lower_char :: "char \<Rightarrow> char" where
  "lower_char c =
     (let n = (of_char c :: nat) in
      if (65 \<le> n \<and> n \<le> 90) \<or> (192 \<le> n \<and> n \<le> 214) \<or> (216 \<le> n \<and> n \<le> 222)
      then char_of (n + 32) else c)"

definition toLowerCase :: "string \<Rightarrow> string" where
  "toLowerCase s = map lower_char s"

definition trim :: "string \<Rightarrow> string" where
  "trim s = rev (dropWhile is_space (rev (dropWhile is_space s)))"

text \<open>\<open>s.includes(k)\<close>: \<open>k\<close> occurs in \<open>s\<close> as a contiguous substring.\<close>

fun js_includes :: "string \<Rightarrow> string \<Rightarrow> bool" where
  "js_includes [] k = (k = [])"
| "js_includes (c # cs) k = (take (length k) (c # cs) = k \<or> js_includes cs k)"

text \<open>\<open>String(n)\<close> for an integral number: decimal digits, with a leading minus sign.\<close>

function show_nat :: "nat \<Rightarrow> string" where
  "show_nat n = (if n < 10 then [char_of (48 + n)] else show_nat (n div 10) @ [char_of (48 + n mod 10)])"
  by pat_completeness auto
termination
  by (relation "measure id") auto

declare show_nat.simps [simp del]

definition show_int :: "int \<Rightarrow> string" where
  "show_int i = (if i < 0 then CHR ''-'' # show_nat (nat (- i)) else show_nat (nat i))"

text \<open>
  A spreadsheet cell as \<open>getValues()\<close> returns it: text (the empty cell is the empty
  text), a number (integral values, of the size that \<open>String\<close> prints as plain decimal
  digits) or a boolean.
\<close>

datatype cell = CStr string | CNum int | CBool bool

type_synonym table = "cell list list"

text \<open>\<open>String(v)\<close> and \<open>v.toString()\<close> on a cell value.\<close>

fun js_String :: "cell \<Rightarrow> string" where
  "js_String (CStr s) = s"
| "js_String (CNum n) = show_int n"
| "js_String (CBool b) = (if b then ''true'' else ''false'')"

text \<open>Truthiness: the empty text, the number zero and \<open>false\<close> are falsy.\<close>

fun truthy :: "cell \<Rightarrow> bool" where
  "truthy (CStr s) = (s \<noteq> [])"
| "truthy (CNum n) = (n \<noteq> 0)"
| "truthy (CBool b) = b"

text \<open>\<open>row[c]\<close>: \<open>None\<close> stands for \<open>undefined\<close>, the value of an index out of range.\<close>

definition cell_at :: "cell list \<Rightarrow> nat \<Rightarrow> cell option" where
  "cell_at row c = (if c < length row then Some (row ! c) else None)"

text \<open>\<open>String(row[c])\<close>, where \<open>String(undefined)\<close> is the text \<open>undefined\<close>.\<close>

definition String_at :: "cell list \<Rightarrow> nat \<Rightarrow> string" where
  "String_at row c = (case cell_at row c of None \<Rightarrow> ''undefined'' | Some v \<Rightarrow> js_String v)"

section \<open>Column discovery\<close>

text \<open>
  \<open>findColumnIndex(headers, keywords)\<close> of the client: the outer loop runs over the
  headers, the inner loop over the keywords, and the first hit returns the header's index.
\<close>

fun findColumnIndex_from :: "nat \<Rightarrow> string list \<Rightarrow> string list \<Rightarrow> int" where
  "findColumnIndex_from i [] keywords = - 1"
| "findColumnIndex_from i (h # hs) keywords =
     (if list_ex (js_includes h) keywords then int i
      else findColumnIndex_from (Suc i) hs keywords)"

definition findColumnIndex :: "string list \<Rightarrow> string list \<Rightarrow> int" where
  "findColumnIndex headers keywords = findColumnIndex_from 0 headers keywords"

text \<open>\<open>data[0].map(h => String(h).toLowerCase().trim())\<close>\<close>

definition normalize_header :: "cell \<Rightarrow> string" where
  "normalize_header h = trim (toLowerCase (js_String h))"

definition columnDiscovery :: "cell list \<Rightarrow> string list \<Rightarrow> int" where
  "columnDiscovery header_row keywords = findColumnIndex (map normalize_header header_row) keywords"

text \<open>
  The property the specification gives a header: its normalized text contains some keyword
  of the set as a substring.
\<close>

definition header_matches :: "string list \<Rightarrow> cell \<Rightarrow> bool" where
  "header_matches keywords h =
     (\<exists>k \<in> set keywords. \<exists>pre post. normalize_header h = pre @ k @ post)"

text \<open>
  Two header texts that differ only in the case of their letters and in white space around
  them.
\<close>

definition same_header_text :: "string \<Rightarrow> string \<Rightarrow> bool" where
  "same_header_text a b =
     (\<exists>la ma ra lb mb rb. a = la @ ma @ ra \<and> b = lb @ mb @ rb
        \<and> list_all is_space la \<and> list_all is_space ra
        \<and> list_all is_space lb \<and> list_all is_space rb
        \<and> map lower_char ma = map lower_char mb)"

section \<open>Errors, the spreadsheet and the user interface\<close>

text \<open>A thrown JavaScript exception, with its message.\<close>

datatype js_error = Error string | TypeError string

fun message :: "js_error \<Rightarrow> string" where
  "message (Error m) = m"
| "message (TypeError m) = m"

text \<open>
  The spreadsheet service is an external collaborator. A sheet is known by what
  \<open>sheet.getRange(address).getValues()\<close> gives: the values, or the exception thrown for
  an address that is not valid. The spreadsheet gives \<open>getSheetByName\<close> (\<open>None\<close> is
  \<open>null\<close>) and \<open>getRangeByName(name)\<close> followed by \<open>getValues()\<close> (\<open>Inr None\<close> is
  \<open>null\<close>, \<open>Inl\<close> a thrown exception).
\<close>

type_synonym sheet = "string \<Rightarrow> js_error + table"

record spreadsheet =
  getSheetByName :: "string \<Rightarrow> sheet option"
  getRangeByName :: "string \<Rightarrow> js_error + table option"

text \<open>\<open>ui.alert(title, message, buttons)\<close> gives the button the user pressed.\<close>

datatype button = YES | NO | OK | CANCEL | CLOSE

type_synonym ui_alert = "string \<Rightarrow> string \<Rightarrow> button"

definition DQ :: string where
  "DQ = [CHR 0x22]"

text \<open>\<open>s.split(sep)\<close> for a separator of one character.\<close>

fun js_split :: "char \<Rightarrow> string \<Rightarrow> string list" where
  "js_split sep [] = [[]]"
| "js_split sep (c # cs) =
     (if c = sep then [] # js_split sep cs
      else (case js_split sep cs of [] \<Rightarrow> [[c]] | w # ws \<Rightarrow> (c # w) # ws))"

text \<open>\<open>xs.join(sep)\<close> on texts.\<close>

fun js_join :: "string \<Rightarrow> string list \<Rightarrow> string" where
  "js_join sep [] = []"
| "js_join sep [x] = x"
| "js_join sep (x # y # ys) = x @ sep @ js_join sep (y # ys)"

section \<open>Resolving a data range reference (client)\<close>

text \<open>
  The branch of \<open>executePromptChainFromCurrentSheet\<close> for a reference with a sheet name:
  \<open>const [sheetName, rangeAddress] = rangeReference.split('!')\<close>, then the sheet is
  looked up and the address read in it. A text that contains the separator always splits
  into two parts or more, so the last case is never taken.
\<close>

definition resolveSheetReference :: "spreadsheet \<Rightarrow> string \<Rightarrow> js_error + table" where
  "resolveSheetReference ss rangeReference =
     (case js_split (CHR ''!'') rangeReference of
        sheetName # rangeAddress # _ \<Rightarrow>
          (case getSheetByName ss sheetName of
             None \<Rightarrow> Inl (Error (''Sheet '' @ DQ @ sheetName @ DQ @ '' not found''))
           | Some targetSheet \<Rightarrow> targetSheet rangeAddress)
      | _ \<Rightarrow> Inl (TypeError ''rangeAddress is undefined''))"

text \<open>
  The body of the outer \<open>try\<close>: a reference with \<open>!\<close> is a sheet reference; any other is
  tried as a named range, then as an address in the current sheet. The inner \<open>catch\<close>
  covers both the named lookup and the first address lookup, and reads the address again.
\<close>

definition resolveReference :: "spreadsheet \<Rightarrow> sheet \<Rightarrow> string \<Rightarrow> js_error + table" where
  "resolveReference ss sheet rangeReference =
     (if js_includes rangeReference ''!'' then resolveSheetReference ss rangeReference
      else (case getRangeByName ss rangeReference of
              Inr (Some namedValues) \<Rightarrow> Inr namedValues
            | Inr None \<Rightarrow>
                (case sheet rangeReference of
                   Inr values \<Rightarrow> Inr values
                 | Inl e \<Rightarrow> sheet rangeReference)
            | Inl e \<Rightarrow> sheet rangeReference))"

section \<open>Building the chain from the sheet (client)\<close>

text \<open>
  One step of a chain. The \<open>options\<close> field is the empty object in every chain the
  builders make, so every request carries the default parameters; it is left out.
\<close>

record step =
  prompt :: string
  data :: table
  includeLastResult :: bool

definition promptKeywords :: "string list" where
  "promptKeywords = [''prompt'', ''query'', ''question'', ''instruction'']"

definition rangeKeywords :: "string list" where
  "rangeKeywords = [''range'', ''data'', ''area'', ''selection'']"

definition includeKeywords :: "string list" where
  "includeKeywords = [''previous'', ''include'', ''prior'', ''last'']"

definition range_issue_message :: "string \<Rightarrow> nat \<Rightarrow> js_error \<Rightarrow> string" where
  "range_issue_message rangeReference i e =
     ''There was a problem with the data range '' @ DQ @ rangeReference @ DQ @ '' in row ''
       @ show_nat (i + 1) @ '': '' @ message e @ NL @ NL
       @ ''Would you like to continue with an empty data set for this step?''"

text \<open>
  The data of row \<open>i\<close>: \<open>None\<close> when the user answered \<open>NO\<close> to the warning, which makes
  the whole function return; the empty table when there is no reference or the user
  went on.
\<close>

definition rangeDataForRow ::
  "spreadsheet \<Rightarrow> sheet \<Rightarrow> ui_alert \<Rightarrow> int \<Rightarrow> nat \<Rightarrow> cell list \<Rightarrow> table option" where
  "rangeDataForRow ss sheet alert rangeCol i row =
     (if rangeCol \<noteq> - 1 \<and> (case cell_at row (nat rangeCol) of None \<Rightarrow> False | Some v \<Rightarrow> truthy v)
      then
        (let rangeReference = trim (String_at row (nat rangeCol)) in
         if rangeReference \<noteq> [] then
           (case resolveReference ss sheet rangeReference of
              Inr values \<Rightarrow> Some values
            | Inl e \<Rightarrow>
                if alert ''Data Range Issue'' (range_issue_message rangeReference i e) = NO
                then None else Some [])
         else Some [])
      else Some [])"

definition includeForRow :: "int \<Rightarrow> cell list \<Rightarrow> bool" where
  "includeForRow includeCol row =
     (if includeCol \<noteq> - 1 then
        (let includeValue = trim (toLowerCase (String_at row (nat includeCol))) in
         includeValue = ''yes'' \<or> includeValue = ''true'' \<or> includeValue = ''1'')
      else False)"

text \<open>
  What the loop body does with one row: \<open>continue\<close>, push a step, \<open>return\<close> from the
  function, or throw. \<open>promptText.trim()\<close> exists only on text: a number or boolean that
  is truthy has no such method and the call throws a TypeError.
\<close>

datatype row_outcome = Skip | Push step | Abort | Throw js_error

definition processRow ::
  "spreadsheet \<Rightarrow> sheet \<Rightarrow> ui_alert \<Rightarrow> int \<Rightarrow> int \<Rightarrow> int \<Rightarrow> nat \<Rightarrow> cell list \<Rightarrow> row_outcome" where
  "processRow ss sheet alert promptCol rangeCol includeCol i row =
     (case cell_at row (nat promptCol) of
        None \<Rightarrow> Skip
      | Some v \<Rightarrow>
          if \<not> truthy v then Skip
          else (case v of
                  CStr promptText \<Rightarrow>
                    if trim promptText = [] then Skip
                    else (case rangeDataForRow ss sheet alert rangeCol i row of
                            None \<Rightarrow> Abort
                          | Some rangeData \<Rightarrow>
                              Push \<lparr>prompt = promptText, data = rangeData,
                                    includeLastResult = includeForRow includeCol row\<rparr>)
                | _ \<Rightarrow> Throw (TypeError ''promptText.trim is not a function'')))"

datatype loop_outcome = Done "step list" bool | Declined | Raised js_error

fun buildLoop ::
  "(nat \<Rightarrow> cell list \<Rightarrow> row_outcome) \<Rightarrow> nat \<Rightarrow> table \<Rightarrow> step list \<Rightarrow> bool \<Rightarrow> loop_outcome" where
  "buildLoop body i [] promptChain hasValidPrompts = Done promptChain hasValidPrompts"
| "buildLoop body i (row # rows) promptChain hasValidPrompts =
     (case body i row of
        Skip \<Rightarrow> buildLoop body (Suc i) rows promptChain hasValidPrompts
      | Push s \<Rightarrow> buildLoop body (Suc i) rows (promptChain @ [s]) True
      | Abort \<Rightarrow> Declined
      | Throw e \<Rightarrow> Raised e)"

text \<open>
  \<open>executePromptChainFromCurrentSheet\<close> up to the built chain: the chain, or the title of
  the alert after which the function returned, or the exception that left it.
\<close>

datatype build_outcome = Built "step list" | Alerted string | Threw js_error

definition buildChainFromSheet ::
  "spreadsheet \<Rightarrow> sheet \<Rightarrow> ui_alert \<Rightarrow> table \<Rightarrow> build_outcome" where
  "buildChainFromSheet ss sheet alert data_rows =
     (if length data_rows < 2 then Alerted ''Insufficient Data''
      else
        (let header_row = data_rows ! 0;
             promptCol = columnDiscovery header_row promptKeywords in
         if promptCol = - 1 then Alerted ''Prompt Column Missing''
         else
           (let rangeCol = columnDiscovery header_row rangeKeywords;
                includeCol = columnDiscovery header_row includeKeywords in
            case buildLoop (processRow ss sheet alert promptCol rangeCol includeCol)
                   1 (drop 1 data_rows) [] False of
              Done promptChain hasValidPrompts \<Rightarrow>
                if \<not> hasValidPrompts then Alerted ''No Valid Prompts'' else Built promptChain
            | Declined \<Rightarrow> Alerted ''Data Range Issue''
            | Raised e \<Rightarrow> Threw e)))"

section \<open>Building the chain from the sheet (library dialog)\<close>

text \<open>
  \<open>showChainDialog\<close> of the library reads fixed columns: the prompt in column 0, the range
  in column 1, the include flag in column 2, compared with \<open>===\<close> to the boolean \<open>true\<close>
  and to the text \<open>true\<close>.
\<close>

definition libIncludeLastResult :: "cell option \<Rightarrow> bool" where
  "libIncludeLastResult v = (v = Some (CBool True) \<or> v = Some (CStr ''true''))"

definition libRangeData :: "sheet \<Rightarrow> cell list \<Rightarrow> js_error + table option" where
  "libRangeData sheet row =
     (case cell_at row 1 of
        None \<Rightarrow> Inr (Some [])
      | Some v \<Rightarrow>
          if \<not> truthy v then Inr (Some [])
          else (case v of
                  CStr rangeStr \<Rightarrow>
                    if trim rangeStr \<noteq> [] then
                      (case sheet rangeStr of Inr values \<Rightarrow> Inr (Some values) | Inl e \<Rightarrow> Inr None)
                    else Inr (Some [])
                | _ \<Rightarrow> Inl (TypeError ''rangeStr.trim is not a function'')))"

definition libProcessRow :: "sheet \<Rightarrow> nat \<Rightarrow> cell list \<Rightarrow> row_outcome" where
  "libProcessRow sheet i row =
     (let includeLast = libIncludeLastResult (cell_at row 2) in
      case cell_at row 0 of
        None \<Rightarrow> Skip
      | Some v \<Rightarrow>
          if \<not> truthy v then Skip
          else (case v of
                  CStr promptText \<Rightarrow>
                    if trim promptText = [] then Skip
                    else (case libRangeData sheet row of
                            Inl e \<Rightarrow> Throw e
                          | Inr None \<Rightarrow> Abort
                          | Inr (Some rangeData) \<Rightarrow>
                              Push \<lparr>prompt = promptText, data = rangeData,
                                    includeLastResult = includeLast\<rparr>)
                | _ \<Rightarrow> Throw (TypeError ''prompt.trim is not a function'')))"

definition showChainDialogBuild :: "sheet \<Rightarrow> table \<Rightarrow> build_outcome" where
  "showChainDialogBuild sheet data_rows =
     (if length data_rows < 2 then Alerted ''Error''
      else (case buildLoop (libProcessRow sheet) 1 (drop 1 data_rows) [] False of
              Done promptChain hasValidPrompts \<Rightarrow>
                if promptChain = [] then Alerted ''Error'' else Built promptChain
            | Declined \<Rightarrow> Alerted ''Error''
            | Raised e \<Rightarrow> Alerted ''Error''))"

section \<open>Executing a chain\<close>

text \<open>
  The completion service is an external collaborator. \<open>api k p\<close> is the outcome of the
  request number \<open>k\<close> of a run (counted from 0) whose single message has the content
  \<open>p\<close>: the exception thrown (transport failure, a status other than 200, a body that does
  not parse), or the decoded reply, of which the code reads \<open>content[0].text\<close>. A
  configured API key and a reply with a first content block are assumed.
\<close>

record api_response =
  first_text :: string

type_synonym completion_api = "nat \<Rightarrow> string \<Rightarrow> js_error + api_response"

text \<open>The rows of a table, each joined by a tab and ended by a line feed.\<close>

definition table_text :: "table \<Rightarrow> string" where
  "table_text d = concat (map (\<lambda>row. js_join TAB (map js_String row) @ NL) d)"

subsection \<open>Fallback mode: \<open>executeChainDirectly\<close> of the client\<close>

definition callClaudeAPI :: "completion_api \<Rightarrow> nat \<Rightarrow> string \<Rightarrow> js_error + string" where
  "callClaudeAPI api k p = (case api k p of Inl e \<Rightarrow> Inl e | Inr r \<Rightarrow> Inr (first_text r))"

text \<open>
  The prompt of one step. \<open>previousResult && ...\<close> is false for \<open>null\<close> (\<open>None\<close>) and for
  the empty text; \<open>if (dataTable)\<close> is false for the empty text.
\<close>

definition directFullPrompt :: "step \<Rightarrow> string option \<Rightarrow> string" where
  "directFullPrompt s previousResult =
     (let dataTable = (if data s \<noteq> [] then table_text (data s) else []);
          fullPrompt = prompt s;
          fullPrompt' =
            (case previousResult of
               None \<Rightarrow> fullPrompt
             | Some r \<Rightarrow>
                 if r \<noteq> [] \<and> includeLastResult s
                 then fullPrompt @ NL @ NL @ ''Result from previous step:'' @ NL @ r
                 else fullPrompt)
      in if dataTable \<noteq> []
         then fullPrompt' @ NL @ NL @ ''Here is the data from the table:'' @ NL @ NL @ dataTable
         else fullPrompt')"

text \<open>
  The loop, with its variables \<open>results\<close> and \<open>previousResult\<close>, and with the list of the
  prompts sent so far. An exception of \<open>callClaudeAPI\<close> leaves the function: the caller
  gets the exception, and the local \<open>results\<close> is lost.
\<close>

fun executeChainDirectlyLoop ::
  "completion_api \<Rightarrow> step list \<Rightarrow> string list \<Rightarrow> string option \<Rightarrow> string list
     \<Rightarrow> string list \<times> (js_error + string list)" where
  "executeChainDirectlyLoop api [] results previousResult sent = (sent, Inr results)"
| "executeChainDirectlyLoop api (s # rest) results previousResult sent =
     (let fullPrompt = directFullPrompt s previousResult in
      case callClaudeAPI api (length sent) fullPrompt of
        Inl e \<Rightarrow> (sent @ [fullPrompt], Inl e)
      | Inr result \<Rightarrow>
          executeChainDirectlyLoop api rest (results @ [result]) (Some result)
            (sent @ [fullPrompt]))"

definition executeChainDirectly ::
  "completion_api \<Rightarrow> step list \<Rightarrow> string list \<times> (js_error + string list)" where
  "executeChainDirectly api promptChain = executeChainDirectlyLoop api promptChain [] None []"

subsection \<open>Library mode: \<open>CellMindAI.executePromptChain\<close>\<close>

definition formatDataAsTable :: "table \<Rightarrow> string" where
  "formatDataAsTable d = (if d = [] then ''No data available'' else table_text d)"

definition sendPromptFullPrompt :: "string \<Rightarrow> table \<Rightarrow> string" where
  "sendPromptFullPrompt p d =
     p @ NL @ NL @ ''Here is the data from the table:'' @ NL @ NL @ formatDataAsTable d"

text \<open>\<open>_sendRequest\<close> wraps every exception of the request in a new one.\<close>

definition sendRequest :: "completion_api \<Rightarrow> nat \<Rightarrow> string \<Rightarrow> js_error + api_response" where
  "sendRequest api k content =
     (case api k content of
        Inl e \<Rightarrow> Inl (Error (''Error during API request: '' @ message e))
      | Inr r \<Rightarrow> Inr r)"

record prompt_result =
  response :: string
  rawResponse :: api_response

definition sendPrompt ::
  "completion_api \<Rightarrow> nat \<Rightarrow> string \<Rightarrow> table \<Rightarrow> js_error + prompt_result" where
  "sendPrompt api k p d =
     (case sendRequest api k (sendPromptFullPrompt p d) of
        Inl e \<Rightarrow> Inl e
      | Inr r \<Rightarrow> Inr \<lparr>response = first_text r, rawResponse = r\<rparr>)"

definition enhancedPrompt :: "step \<Rightarrow> string option \<Rightarrow> string" where
  "enhancedPrompt currentStep previousResponse =
     (case previousResponse of
        None \<Rightarrow> prompt currentStep
      | Some r \<Rightarrow>
          if r \<noteq> [] \<and> includeLastResult currentStep
          then prompt currentStep @ NL @ NL @ ''Result of the previous step:'' @ NL @ r
          else prompt currentStep)"

fun executePromptChainLoop ::
  "completion_api \<Rightarrow> step list \<Rightarrow> prompt_result list \<Rightarrow> string option \<Rightarrow> string list
     \<Rightarrow> string list \<times> (js_error + prompt_result list)" where
  "executePromptChainLoop api [] results previousResponse sent = (sent, Inr results)"
| "executePromptChainLoop api (currentStep # rest) results previousResponse sent =
     (let p = enhancedPrompt currentStep previousResponse;
          fullPrompt = sendPromptFullPrompt p (data currentStep) in
      case sendPrompt api (length sent) p (data currentStep) of
        Inl e \<Rightarrow> (sent @ [fullPrompt], Inl e)
      | Inr result \<Rightarrow>
          executePromptChainLoop api rest (results @ [result]) (Some (response result))
            (sent @ [fullPrompt]))"

text \<open>
  The argument of \<open>executePromptChain\<close> is any JavaScript value: an array of steps, or
  something that is not an array.
\<close>

datatype chain_arg = NotAnArray | ChainArray "step list"

definition executePromptChain ::
  "completion_api \<Rightarrow> chain_arg \<Rightarrow> string list \<times> (js_error + prompt_result list)" where
  "executePromptChain api promptChain =
     (case promptChain of
        NotAnArray \<Rightarrow> ([], Inl (Error ''Prompt chain must be a non-empty array''))
      | ChainArray steps \<Rightarrow>
          if steps = [] then ([], Inl (Error ''Prompt chain must be a non-empty array''))
          else executePromptChainLoop api steps [] None [])"

section \<open>Notions of the specification\<close>

text \<open>The prompt cell of a row is empty or holds white space only.\<close>

definition blankPrompt :: "int \<Rightarrow> cell list \<Rightarrow> bool" where
  "blankPrompt promptCol row =
     (case cell_at row (nat promptCol) of Some (CStr s) \<Rightarrow> trim s = [] | _ \<Rightarrow> False)"

text \<open>The prompt of a row whose prompt cell is text with more than white space in it.\<close>

definition keptPrompt :: "int \<Rightarrow> cell list \<Rightarrow> string option" where
  "keptPrompt promptCol row =
     (case cell_at row (nat promptCol) of
        Some (CStr s) \<Rightarrow> if trim s = [] then None else Some s
      | _ \<Rightarrow> None)"

text \<open>The delimited rendering of a table, as both execution paths append it.\<close>

definition dataSection :: "table \<Rightarrow> string" where
  "dataSection d = NL @ NL @ ''Here is the data from the table:'' @ NL @ NL @ table_text d"

text \<open>The wrapper that \<open>_sendRequest\<close> puts around an exception.\<close>

definition wrapRequestError :: "js_error \<Rightarrow> js_error" where
  "wrapRequestError e = Error (''Error during API request: '' @ message e)"

section \<open>Facts about the string primitives\<close>

lemma includes_iff: "js_includes s k \<longleftrightarrow> (\<exists>pre post. s = pre @ k @ post)"
proof (induction s)
  case Nil
  then show ?case by auto
next
  case (Cons c cs)
  show ?case
  proof
    assume "js_includes (c # cs) k"
    then consider "take (length k) (c # cs) = k" | "js_includes cs k" by auto
    then show "\<exists>pre post. c # cs = pre @ k @ post"
    proof cases
      case 1
      then have "c # cs = [] @ k @ drop (length k) (c # cs)"
        by (metis append_Nil append_take_drop_id)
      then show ?thesis by blast
    next
      case 2
      then obtain pre post where "cs = pre @ k @ post" using Cons.IH by blast
      then have "c # cs = (c # pre) @ k @ post" by simp
      then show ?thesis by blast
    qed
  next
    assume "\<exists>pre post. c # cs = pre @ k @ post"
    then obtain pre post where eq: "c # cs = pre @ k @ post" by blast
    show "js_includes (c # cs) k"
    proof (cases pre)
      case Nil
      then have "take (length k) (c # cs) = k" using eq by simp
      then show ?thesis by simp
    next
      case (Cons p ps)
      then have "cs = ps @ k @ post" using eq by simp
      then have "js_includes cs k" using Cons.IH by blast
      then show ?thesis by simp
    qed
  qed
qed

lemma is_space_lower_char: "is_space c \<Longrightarrow> lower_char c = c"
  by (auto simp: is_space_def lower_char_def)

lemma lower_char_spaces: "list_all is_space l \<Longrightarrow> map lower_char l = l"
  by (induction l) (simp_all add: is_space_lower_char)

lemma dropWhile_spaces_append: "list_all is_space l \<Longrightarrow> dropWhile is_space (l @ s) = dropWhile is_space s"
  by (induction l) simp_all

lemma trim_padding:
  assumes "list_all is_space l" and "list_all is_space r"
  shows "trim (l @ s @ r) = trim s"
proof -
  have r': "list_all is_space (rev r)" using assms(2) by (simp add: list_all_iff)
  show ?thesis
  proof (cases "list_all is_space s")
    case True
    then have "list_all is_space (s @ r)" using assms(2) by simp
    then have 1: "dropWhile is_space (s @ r) = []" by (simp add: list_all_iff)
    have 2: "dropWhile is_space s = []" using True by (simp add: list_all_iff)
    have "trim (l @ s @ r) = rev (dropWhile is_space (rev (dropWhile is_space (s @ r))))"
      unfolding trim_def using dropWhile_spaces_append [OF assms(1), of "s @ r"] by simp
    also have "\<dots> = []" unfolding 1 by simp
    also have "\<dots> = trim s" unfolding trim_def 2 by simp
    finally show ?thesis .
  next
    case False
    then have ex: "\<exists>x \<in> set s. \<not> is_space x" by (simp add: list_all_iff)
    then obtain x where "x \<in> set s" and "\<not> is_space x" by blast
    then have d: "dropWhile is_space (s @ r) = dropWhile is_space s @ r"
      by (rule dropWhile_append1)
    have "rev (dropWhile is_space s @ r) = rev r @ rev (dropWhile is_space s)" by simp
    then have "dropWhile is_space (rev (dropWhile is_space s @ r))
        = dropWhile is_space (rev (dropWhile is_space s))"
      using dropWhile_spaces_append [OF r'] by simp
    then show ?thesis by (simp add: trim_def dropWhile_spaces_append [OF assms(1)] d)
  qed
qed

lemma same_header_text_normalize:
  assumes "same_header_text a b"
  shows "normalize_header (CStr a) = normalize_header (CStr b)"
proof -
  from assms obtain la ma ra lb mb rb where
    a: "a = la @ ma @ ra" and b: "b = lb @ mb @ rb"
    and sp: "list_all is_space la" "list_all is_space ra" "list_all is_space lb" "list_all is_space rb"
    and m: "map lower_char ma = map lower_char mb"
    unfolding same_header_text_def by blast
  have "toLowerCase a = la @ map lower_char ma @ ra"
    using a sp by (simp add: toLowerCase_def lower_char_spaces)
  moreover have "toLowerCase b = lb @ map lower_char mb @ rb"
    using b sp by (simp add: toLowerCase_def lower_char_spaces)
  ultimately show ?thesis
    using sp m by (simp add: normalize_header_def trim_padding)
qed

section \<open>Facts about column discovery\<close>

lemma list_ex_includes_matches:
  "list_ex (js_includes (normalize_header h)) K \<longleftrightarrow> header_matches K h"
  by (simp add: list_ex_iff header_matches_def includes_iff)

lemma findColumnIndex_from_first:
  assumes "i < length hs" and "list_ex (js_includes (hs ! i)) K"
    and "\<forall>j<i. \<not> list_ex (js_includes (hs ! j)) K"
  shows "findColumnIndex_from n hs K = int (n + i)"
  using assms
proof (induction hs arbitrary: n i)
  case Nil
  then show ?case by simp
next
  case (Cons h hs)
  show ?case
  proof (cases i)
    case 0
    then show ?thesis using Cons.prems by simp
  next
    case (Suc i')
    have h0: "\<not> list_ex (js_includes h) K" using Cons.prems(3) Suc by auto
    have "findColumnIndex_from (Suc n) hs K = int (Suc n + i')"
    proof (rule Cons.IH)
      show "i' < length hs" using Cons.prems(1) Suc by simp
      show "list_ex (js_includes (hs ! i')) K" using Cons.prems(2) Suc by simp
      show "\<forall>j<i'. \<not> list_ex (js_includes (hs ! j)) K"
      proof (intro allI impI)
        fix j assume "j < i'"
        then have "Suc j < i" using Suc by simp
        then have "\<not> list_ex (js_includes ((h # hs) ! Suc j)) K" using Cons.prems(3) by blast
        then show "\<not> list_ex (js_includes (hs ! j)) K" by simp
      qed
    qed
    then show ?thesis using h0 Suc by simp
  qed
qed

lemma findColumnIndex_from_none:
  "\<forall>h \<in> set hs. \<not> list_ex (js_includes h) K \<Longrightarrow> findColumnIndex_from n hs K = - 1"
  by (induction hs arbitrary: n) simp_all

text \<open>
  C2. Column discovery returns the index of the first header, from the left, whose
  lower-cased and trimmed text contains a keyword of the set as a substring; it returns
  \<open>-1\<close> when no header does; and two header rows whose texts differ only in letter case
  and in surrounding white space give the same result.
\<close>

theorem columnDiscovery_first_match:
  "(\<forall>i. i < length H \<and> header_matches K (H ! i) \<and> (\<forall>j<i. \<not> header_matches K (H ! j))
        \<longrightarrow> columnDiscovery H K = int i)
   \<and> ((\<forall>i<length H. \<not> header_matches K (H ! i)) \<longrightarrow> columnDiscovery H K = - 1)
   \<and> (list_all2 same_header_text S S'
        \<longrightarrow> columnDiscovery (map CStr S) K = columnDiscovery (map CStr S') K)"
proof (intro conjI allI impI)
  fix i
  assume a: "i < length H \<and> header_matches K (H ! i) \<and> (\<forall>j<i. \<not> header_matches K (H ! j))"
  let ?hs = "map normalize_header H"
  have 1: "i < length ?hs" using a by simp
  have 2: "list_ex (js_includes (?hs ! i)) K"
    using a by (simp add: list_ex_includes_matches)
  have 3: "\<forall>j<i. \<not> list_ex (js_includes (?hs ! j)) K"
    using a by (simp add: list_ex_includes_matches)
  show "columnDiscovery H K = int i"
    using findColumnIndex_from_first [OF 1 2 3, of 0]
    by (simp add: columnDiscovery_def findColumnIndex_def)
next
  assume a: "\<forall>i<length H. \<not> header_matches K (H ! i)"
  have "\<forall>h \<in> set (map normalize_header H). \<not> list_ex (js_includes h) K"
    using a by (auto simp: list_ex_includes_matches in_set_conv_nth)
  then show "columnDiscovery H K = - 1"
    by (simp add: columnDiscovery_def findColumnIndex_def findColumnIndex_from_none)
next
  assume "list_all2 same_header_text S S'"
  then have "map (normalize_header \<circ> CStr) S = map (normalize_header \<circ> CStr) S'"
    by (induction rule: list_all2_induct) (simp_all add: same_header_text_normalize)
  then show "columnDiscovery (map CStr S) K = columnDiscovery (map CStr S') K"
    by (simp add: columnDiscovery_def)
qed

theorem columnDiscovery_first_match_witness:
  "header_matches [''prompt'', ''query''] ([CStr ''Notes'', CStr ''  My PROMPT ''] ! 1)
   \<and> \<not> header_matches [''prompt'', ''query''] ([CStr ''Notes'', CStr ''  My PROMPT ''] ! 0)
   \<and> columnDiscovery [CStr ''Notes'', CStr ''  My PROMPT ''] [''prompt'', ''query''] = 1
   \<and> columnDiscovery [CStr ''Notes''] [''prompt'', ''query''] = - 1
   \<and> list_all2 same_header_text [[CHR 0xA0] @ '' PROMPT '', [CHR 0xC9] @ ''t'' @ [CHR 0xC9]]
        [''Prompt'', [CHR 0xE9] @ ''T'' @ [CHR 0xE9] @ [CHR 0xA0]]
   \<and> columnDiscovery (map CStr [[CHR 0xA0] @ '' PROMPT '', [CHR 0xC9] @ ''t'' @ [CHR 0xC9]])
        [''prompt'', ''query'']
       = columnDiscovery (map CStr [''Prompt'', [CHR 0xE9] @ ''T'' @ [CHR 0xE9] @ [CHR 0xA0]])
           [''prompt'', ''query'']
   \<and> columnDiscovery [CStr [CHR 0xC9]] [[CHR 0xE9]] = 0
   \<and> columnDiscovery [CStr ([CHR 0xA0] @ ''Prompt'')] [[CHR 0xA0] @ ''p''] = - 1"
proof -
  let ?K = "[''prompt'', ''query'']"
  let ?H = "[CStr ''Notes'', CStr ''  My PROMPT '']"
  let ?S = "[[CHR 0xA0] @ '' PROMPT '', [CHR 0xC9] @ ''t'' @ [CHR 0xC9]]"
  let ?S' = "[''Prompt'', [CHR 0xE9] @ ''T'' @ [CHR 0xE9] @ [CHR 0xA0]]"
  have m1: "header_matches ?K (?H ! 1)"
    unfolding list_ex_includes_matches [symmetric] by code_simp
  have m0: "\<not> header_matches ?K (?H ! 0)"
    unfolding list_ex_includes_matches [symmetric] by code_simp
  have n0: "\<not> header_matches ?K (CStr ''Notes'')"
    using m0 by simp
  have v1: "same_header_text ([CHR 0xA0] @ '' PROMPT '') ''Prompt''"
    unfolding same_header_text_def
    apply (rule exI [of _ "[CHR 0xA0, CHR 0x20]"], rule exI [of _ "''PROMPT''"], rule exI [of _ "'' ''"])
    apply (rule exI [of _ "''''"], rule exI [of _ "''Prompt''"], rule exI [of _ "''''"])
    by code_simp
  have v2: "same_header_text ([CHR 0xC9] @ ''t'' @ [CHR 0xC9]) ([CHR 0xE9] @ ''T'' @ [CHR 0xE9] @ [CHR 0xA0])"
    unfolding same_header_text_def
    apply (rule exI [of _ "''''"], rule exI [of _ "[CHR 0xC9] @ ''t'' @ [CHR 0xC9]"], rule exI [of _ "''''"])
    apply (rule exI [of _ "''''"], rule exI [of _ "[CHR 0xE9] @ ''T'' @ [CHR 0xE9]"], rule exI [of _ "[CHR 0xA0]"])
    by code_simp
  have v: "list_all2 same_header_text ?S ?S'" using v1 v2 by simp
  note T = columnDiscovery_first_match [of ?H ?K ?S ?S']
  note T' = columnDiscovery_first_match [of "[CStr ''Notes'']" ?K "[]" "[]"]
  have c1: "columnDiscovery ?H ?K = 1"
    using T m1 m0 by (auto simp: less_Suc_eq)
  have c2: "columnDiscovery [CStr ''Notes''] ?K = - 1"
    using T' n0 by simp
  have c3: "columnDiscovery (map CStr ?S) ?K = columnDiscovery (map CStr ?S') ?K"
    using T v by blast
  have e1: "columnDiscovery [CStr [CHR 0xC9]] [[CHR 0xE9]] = 0" by code_simp
  have e2: "columnDiscovery [CStr ([CHR 0xA0] @ ''Prompt'')] [[CHR 0xA0] @ ''p''] = - 1" by code_simp
  show ?thesis using m1 m0 c1 c2 c3 v e1 e2 by simp
qed

section \<open>Facts about reference resolution\<close>

lemma includes_char: "js_includes s [c] \<longleftrightarrow> c \<in> set s"
proof -
  have "(\<exists>pre post. s = pre @ [c] @ post) \<longleftrightarrow> c \<in> set s"
    by (auto simp: in_set_conv_decomp)
  then show ?thesis by (simp add: includes_iff)
qed

lemma js_split_nonempty: "js_split sep s \<noteq> []"
  by (induction s) (auto split: list.splits)

lemma js_split_first:
  "sep \<notin> set a \<Longrightarrow> js_split sep (a @ sep # b) = a # js_split sep b"
  by (induction a) (auto split: list.splits simp: js_split_nonempty)

text \<open>
  C3. A reference without the separator \<open>!\<close> is first looked up as a named range, and
  the named values are the result when the lookup gives a range. When it gives none (it
  returns \<open>null\<close> or throws), the result is that of the address lookup in the current
  sheet; so when both lookups fail, the error that reaches the caller is the error of the
  address lookup.
\<close>

theorem resolveReference_named_then_address:
  assumes "CHR ''!'' \<notin> set ref"
  shows "(\<forall>t. getRangeByName ss ref = Inr (Some t) \<longrightarrow> resolveReference ss sheet ref = Inr t)
     \<and> ((\<forall>t. getRangeByName ss ref \<noteq> Inr (Some t)) \<longrightarrow> resolveReference ss sheet ref = sheet ref)
     \<and> (\<forall>e. (\<forall>t. getRangeByName ss ref \<noteq> Inr (Some t)) \<and> sheet ref = Inl e
            \<longrightarrow> resolveReference ss sheet ref = Inl e)"
proof -
  have n: "\<not> js_includes ref ''!''" using assms by (simp add: includes_char)
  show ?thesis
    using n by (auto simp: resolveReference_def split: sum.splits option.splits)
qed

theorem resolveReference_named_then_address_witness:
  "CHR ''!'' \<notin> set ''Sales'' \<and> CHR ''!'' \<notin> set ''A1'' \<and> CHR ''!'' \<notin> set ''A0:''
   \<and> resolveReference
        \<lparr>getSheetByName = (\<lambda>n. None),
         getRangeByName = (\<lambda>n. if n = ''Sales'' then Inr (Some [[CStr ''x'', CNum 1]]) else Inr None)\<rparr>
        (\<lambda>a. if a = ''A1'' then Inr [[CNum 7]] else Inl (Error ''Range not found'')) ''Sales''
       = Inr [[CStr ''x'', CNum 1]]
   \<and> resolveReference
        \<lparr>getSheetByName = (\<lambda>n. None),
         getRangeByName = (\<lambda>n. if n = ''Sales'' then Inr (Some [[CStr ''x'', CNum 1]]) else Inr None)\<rparr>
        (\<lambda>a. if a = ''A1'' then Inr [[CNum 7]] else Inl (Error ''Range not found'')) ''A1''
       = Inr [[CNum 7]]
   \<and> resolveReference
        \<lparr>getSheetByName = (\<lambda>n. None),
         getRangeByName = (\<lambda>n. if n = ''Sales'' then Inr (Some [[CStr ''x'', CNum 1]]) else Inr None)\<rparr>
        (\<lambda>a. if a = ''A1'' then Inr [[CNum 7]] else Inl (Error ''Range not found'')) ''A0:''
       = Inl (Error ''Range not found'')"
proof -
  let ?ss = "\<lparr>getSheetByName = (\<lambda>n. None),
         getRangeByName = (\<lambda>n. if n = ''Sales'' then Inr (Some [[CStr ''x'', CNum 1]]) else Inr None)\<rparr>"
  let ?sh = "(\<lambda>a. if a = ''A1'' then Inr [[CNum 7]] else Inl (Error ''Range not found''))"
  have h1: "CHR ''!'' \<notin> set ''Sales''" by simp
  have h2: "CHR ''!'' \<notin> set ''A1''" by simp
  have h3: "CHR ''!'' \<notin> set ''A0:''" by simp
  show ?thesis
    using resolveReference_named_then_address [OF h1, of ?ss ?sh]
      resolveReference_named_then_address [OF h2, of ?ss ?sh]
      resolveReference_named_then_address [OF h3, of ?ss ?sh]
    by simp
qed

text \<open>
  C7. A reference \<open>scopeName!address\<close> whose sheet name is unknown to the spreadsheet
  fails with the error made for that case, whose message names the sheet:
  \<open>Sheet "scopeName" not found\<close>.
\<close>

theorem resolveReference_sheet_not_found:
  assumes "ref = scopeName @ ''!'' @ address" and "CHR ''!'' \<notin> set scopeName"
    and "getSheetByName ss scopeName = None"
  shows "resolveReference ss sheet ref
           = Inl (Error (''Sheet '' @ DQ @ scopeName @ DQ @ '' not found''))"
proof -
  have inc: "js_includes ref ''!''" using assms(1) by (simp add: includes_char)
  obtain w ws where sp: "js_split (CHR ''!'') address = w # ws"
    using js_split_nonempty by (cases "js_split (CHR ''!'') address") auto
  have "js_split (CHR ''!'') ref = scopeName # w # ws"
    using assms(1,2) sp by (simp add: js_split_first)
  then show ?thesis
    using inc assms(3) by (simp add: resolveReference_def resolveSheetReference_def)
qed

theorem resolveReference_sheet_not_found_witness:
  "resolveReference
     \<lparr>getSheetByName = (\<lambda>n. if n = ''Sheet1'' then Some (\<lambda>a. Inr [[CStr ''v'']]) else None),
      getRangeByName = (\<lambda>n. Inr None)\<rparr>
     (\<lambda>a. Inr [[CNum 7]]) ''Sheet2!A1:A3''
   = Inl (Error (''Sheet '' @ DQ @ ''Sheet2'' @ DQ @ '' not found''))"
  using resolveReference_sheet_not_found [of "''Sheet2!A1:A3''" "''Sheet2''" "''A1:A3''"
     "\<lparr>getSheetByName = (\<lambda>n. if n = ''Sheet1'' then Some (\<lambda>a. Inr [[CStr ''v'']]) else None),
      getRangeByName = (\<lambda>n. Inr None)\<rparr>" "(\<lambda>a. Inr [[CNum 7]])"]
  by simp

section \<open>Facts about chain execution\<close>

text \<open>
  C10. The library's \<open>executePromptChain\<close> called with a value that is not an array, or
  with the empty array, throws \<open>Prompt chain must be a non-empty array\<close>; no request has
  been sent and no result list is returned.
\<close>

theorem executePromptChain_rejects_non_array_and_empty:
  assumes "promptChain = NotAnArray \<or> promptChain = ChainArray []"
  shows "executePromptChain api promptChain
           = ([], Inl (Error ''Prompt chain must be a non-empty array''))"
  using assms by (auto simp: executePromptChain_def)

theorem executePromptChain_rejects_non_array_and_empty_witness:
  "executePromptChain (\<lambda>k p. Inr \<lparr>first_text = ''ok''\<rparr>) (ChainArray [])
     = ([], Inl (Error ''Prompt chain must be a non-empty array''))
   \<and> executePromptChain (\<lambda>k p. Inr \<lparr>first_text = ''ok''\<rparr>) NotAnArray
     = ([], Inl (Error ''Prompt chain must be a non-empty array''))"
  using executePromptChain_rejects_non_array_and_empty [of "ChainArray []" "\<lambda>k p. Inr \<lparr>first_text = ''ok''\<rparr>"]
    executePromptChain_rejects_non_array_and_empty [of NotAnArray "\<lambda>k p. Inr \<lparr>first_text = ''ok''\<rparr>"]
  by simp

section \<open>Facts about the composed prompt\<close>

lemma table_text_Nil: "table_text [] = []"
  by (simp add: table_text_def)

lemma table_text_Cons: "table_text (row # rows) = js_join TAB (map js_String row) @ NL @ table_text rows"
  by (simp add: table_text_def)

lemma table_text_nonempty: "d \<noteq> [] \<Longrightarrow> table_text d \<noteq> []"
  by (cases d) (simp_all add: table_text_Cons NL_def)

text \<open>
  C5, as the code has it. In fallback mode (\<open>executeChainDirectly\<close>) the prompt of a step
  is the step's prompt, the previous result section if there is one, and then the
  delimited rendering of the data exactly when the data is not empty, and nothing more
  when it is empty. In library
  mode (\<open>sendPrompt\<close>) the heading of the data section is always appended, followed by the
  rendering of the data when there is some and by the placeholder text
  \<open>No data available\<close> when there is none. The rendering puts a tab between the cells of
  a row and a line feed after each row.
\<close>

theorem prompt_data_section:
  "directFullPrompt s previousResult
     = prompt s
         @ (case previousResult of
              None \<Rightarrow> []
            | Some r \<Rightarrow>
                if r \<noteq> [] \<and> includeLastResult s
                then NL @ NL @ ''Result from previous step:'' @ NL @ r else [])
         @ (if data s = [] then [] else dataSection (data s))
   \<and> sendPromptFullPrompt p d
     = p @ (if d = []
            then NL @ NL @ ''Here is the data from the table:'' @ NL @ NL @ ''No data available''
            else dataSection d)
   \<and> table_text [] = []
   \<and> table_text (row # rows) = js_join TAB (map js_String row) @ NL @ table_text rows"
proof (intro conjI)
  show "directFullPrompt s previousResult
     = prompt s
         @ (case previousResult of
              None \<Rightarrow> []
            | Some r \<Rightarrow>
                if r \<noteq> [] \<and> includeLastResult s
                then NL @ NL @ ''Result from previous step:'' @ NL @ r else [])
         @ (if data s = [] then [] else dataSection (data s))"
    by (simp add: directFullPrompt_def dataSection_def table_text_nonempty Let_def
        split: option.splits)
  show "sendPromptFullPrompt p d
     = p @ (if d = []
            then NL @ NL @ ''Here is the data from the table:'' @ NL @ NL @ ''No data available''
            else dataSection d)"
    by (simp add: sendPromptFullPrompt_def formatDataAsTable_def dataSection_def)
  show "table_text [] = []" by (rule table_text_Nil)
  show "table_text (row # rows) = js_join TAB (map js_String row) @ NL @ table_text rows"
    by (rule table_text_Cons)
qed

theorem prompt_data_section_witness:
  "directFullPrompt \<lparr>prompt = ''Summarize'', data = [[CStr ''x'', CNum 1], [CStr ''y'', CNum 2]],
       includeLastResult = False\<rparr> None
     = ''Summarize'' @ NL @ NL @ ''Here is the data from the table:'' @ NL @ NL
         @ ''x'' @ TAB @ ''1'' @ NL @ ''y'' @ TAB @ ''2'' @ NL
   \<and> directFullPrompt \<lparr>prompt = ''Summarize'', data = [], includeLastResult = False\<rparr> None
     = ''Summarize''
   \<and> sendPromptFullPrompt ''Summarize'' []
     = ''Summarize'' @ NL @ NL @ ''Here is the data from the table:'' @ NL @ NL @ ''No data available''"
proof -
  have b: "dataSection [[CStr ''x'', CNum 1], [CStr ''y'', CNum 2]]
     = NL @ NL @ ''Here is the data from the table:'' @ NL @ NL
         @ ''x'' @ TAB @ ''1'' @ NL @ ''y'' @ TAB @ ''2'' @ NL" by code_simp
  show ?thesis
    using prompt_data_section [of "\<lparr>prompt = ''Summarize'', data = [[CStr ''x'', CNum 1], [CStr ''y'', CNum 2]],
       includeLastResult = False\<rparr>" None "''Summarize''" "[]" "[]" "[]"]
      prompt_data_section [of "\<lparr>prompt = ''Summarize'', data = [], includeLastResult = False\<rparr>" None "[]" "[]" "[]" "[]"]
      b
    by simp
qed

text \<open>
  C5 as stated fails in library mode: for a step without data the prompt sent carries the
  heading and the placeholder text.
\<close>

theorem library_prompt_placeholder_counterexample:
  "fst (executePromptChain (\<lambda>k p. Inr \<lparr>first_text = ''ok''\<rparr>)
           (ChainArray [\<lparr>prompt = ''Summarize'', data = [], includeLastResult = False\<rparr>]))
     = [''Summarize'' @ NL @ NL @ ''Here is the data from the table:'' @ NL @ NL @ ''No data available'']"
  by code_simp

section \<open>Facts about the chain builders\<close>

lemma trim_Nil [simp]: "trim [] = []"
  by (simp add: trim_def)

lemma buildLoop_Done_map:
  assumes push: "\<And>j row s. body j row = Push s \<Longrightarrow> h row = Some (f s)"
    and skip: "\<And>j row. body j row = Skip \<Longrightarrow> h row = None"
  shows "buildLoop body i rows chain hv = Done chain' hv'
           \<Longrightarrow> map f chain' = map f chain @ List.map_filter h rows"
proof (induction rows arbitrary: i chain hv)
  case Nil
  then show ?case by simp
next
  case (Cons row rows)
  show ?case
  proof (cases "body i row")
    case Skip
    then have "buildLoop body (Suc i) rows chain hv = Done chain' hv'"
      using Cons.prems by simp
    then have "map f chain' = map f chain @ List.map_filter h rows" by (rule Cons.IH)
    then show ?thesis using skip [OF Skip] by simp
  next
    case (Push s)
    then have "buildLoop body (Suc i) rows (chain @ [s]) True = Done chain' hv'"
      using Cons.prems by simp
    then have "map f chain' = map f (chain @ [s]) @ List.map_filter h rows" by (rule Cons.IH)
    then show ?thesis using push [OF Push] by simp
  next
    case Abort
    then show ?thesis using Cons.prems by simp
  next
    case (Throw e)
    then show ?thesis using Cons.prems by simp
  qed
qed

lemma processRow_Skip_kept:
  "processRow ss sheet alert pc rc ic j row = Skip \<Longrightarrow> keptPrompt pc row = None"
  by (auto simp: processRow_def keptPrompt_def split: option.splits cell.splits if_splits)

lemma processRow_Push_prompt:
  "processRow ss sheet alert pc rc ic j row = Push s \<Longrightarrow> keptPrompt pc row = Some (prompt s)"
  by (auto simp: processRow_def keptPrompt_def split: option.splits cell.splits if_splits)

lemma processRow_Push_include:
  "processRow ss sheet alert pc rc ic j row = Push s \<Longrightarrow> includeLastResult s = includeForRow ic row"
  by (auto simp: processRow_def split: option.splits cell.splits if_splits)

lemma processRow_blank:
  "blankPrompt pc row \<Longrightarrow> processRow ss sheet alert pc rc ic j row = Skip"
  by (auto simp: processRow_def blankPrompt_def split: option.splits cell.splits if_splits)

lemma libProcessRow_Skip_kept:
  "libProcessRow sheet j row = Skip \<Longrightarrow> keptPrompt 0 row = None"
  by (auto simp: libProcessRow_def keptPrompt_def Let_def split: option.splits cell.splits if_splits sum.splits)

lemma libProcessRow_Push_kept:
  "libProcessRow sheet j row = Push s \<Longrightarrow> keptPrompt 0 row = Some (prompt s)"
  by (auto simp: libProcessRow_def keptPrompt_def Let_def split: option.splits cell.splits if_splits sum.splits)

lemma libProcessRow_Push_include:
  "libProcessRow sheet j row = Push s \<Longrightarrow> includeLastResult s = libIncludeLastResult (cell_at row 2)"
  by (auto simp: libProcessRow_def Let_def split: option.splits cell.splits if_splits sum.splits)

lemma buildChainFromSheet_Built_loop:
  assumes "buildChainFromSheet ss sheet alert data_rows = Built chain"
  shows "\<exists>hv. buildLoop (processRow ss sheet alert (columnDiscovery (data_rows ! 0) promptKeywords)
            (columnDiscovery (data_rows ! 0) rangeKeywords)
            (columnDiscovery (data_rows ! 0) includeKeywords)) 1 (drop 1 data_rows) [] False
          = Done chain hv"
  using assms
  by (auto simp: buildChainFromSheet_def Let_def split: if_splits loop_outcome.splits)

lemma showChainDialogBuild_Built_loop:
  assumes "showChainDialogBuild sheet data_rows = Built chain"
  shows "\<exists>hv. buildLoop (libProcessRow sheet) 1 (drop 1 data_rows) [] False = Done chain hv"
  using assms
  by (auto simp: showChainDialogBuild_def split: if_splits loop_outcome.splits)

lemma buildLoop_total:
  assumes "\<And>j row. row \<in> set rows \<Longrightarrow> body j row \<noteq> Abort \<and> (\<forall>e. body j row \<noteq> Throw e)"
  shows "\<exists>chain' hv'. buildLoop body i rows chain hv = Done chain' hv'"
  using assms
proof (induction rows arbitrary: i chain hv)
  case Nil
  then show ?case by simp
next
  case (Cons row rows)
  have r: "body i row \<noteq> Abort \<and> (\<forall>e. body i row \<noteq> Throw e)" using Cons.prems by simp
  have ih: "\<And>i chain hv. \<exists>chain' hv'. buildLoop body i rows chain hv = Done chain' hv'"
    using Cons.IH Cons.prems by simp
  show ?case
  proof (cases "body i row")
    case Skip
    then show ?thesis using ih [of "Suc i" chain hv] by simp
  next
    case (Push s)
    then show ?thesis using ih [of "Suc i" "chain @ [s]" True] by simp
  next
    case Abort
    then show ?thesis using r by simp
  next
    case (Throw e)
    then show ?thesis using r by simp
  qed
qed

lemma processRow_no_abort:
  assumes "\<forall>t m. alert t m \<noteq> NO"
  shows "processRow ss sheet alert pc rc ic j row \<noteq> Abort"
  using assms
  by (auto simp: processRow_def rangeDataForRow_def Let_def
      split: option.splits cell.splits if_splits sum.splits)

lemma processRow_no_throw:
  assumes "\<forall>v. cell_at row (nat pc) = Some v \<and> truthy v \<longrightarrow> (\<exists>s. v = CStr s)"
  shows "processRow ss sheet alert pc rc ic j row \<noteq> Throw e"
  using assms
  by (auto simp: processRow_def split: option.splits cell.splits if_splits)

lemma processRow_falsy:
  "(\<forall>v. cell_at row (nat pc) = Some v \<longrightarrow> \<not> truthy v)
     \<Longrightarrow> processRow ss sheet alert pc rc ic j row = Skip"
  by (auto simp: processRow_def split: option.splits)

lemma processRow_kept:
  assumes "keptPrompt pc row = Some p"
  shows "processRow ss sheet alert pc rc ic j row
           = (case rangeDataForRow ss sheet alert rc j row of
                None \<Rightarrow> Abort
              | Some d \<Rightarrow> Push \<lparr>prompt = p, data = d, includeLastResult = includeForRow ic row\<rparr>)"
  using assms
  by (auto simp: processRow_def keptPrompt_def split: option.splits cell.splits if_splits)

lemma rangeDataForRow_None_iff:
  "rangeDataForRow ss sheet alert rc j row = None \<longleftrightarrow>
     (\<exists>e. rc \<noteq> - 1 \<and> (\<exists>v. cell_at row (nat rc) = Some v \<and> truthy v)
          \<and> trim (String_at row (nat rc)) \<noteq> []
          \<and> resolveReference ss sheet (trim (String_at row (nat rc))) = Inl e
          \<and> alert ''Data Range Issue'' (range_issue_message (trim (String_at row (nat rc))) j e) = NO)"
  by (auto simp: rangeDataForRow_def Let_def split: option.splits sum.splits if_splits)

lemma buildLoop_Done_flag:
  "buildLoop body i rows chain hv = Done chain' hv'
     \<Longrightarrow> length chain \<le> length chain' \<and> (hv' \<longleftrightarrow> hv \<or> length chain < length chain')"
proof (induction rows arbitrary: i chain hv)
  case Nil
  then show ?case by simp
next
  case (Cons row rows)
  show ?case
  proof (cases "body i row")
    case Skip
    then have "buildLoop body (Suc i) rows chain hv = Done chain' hv'" using Cons.prems by simp
    then show ?thesis by (rule Cons.IH)
  next
    case (Push s)
    then have "buildLoop body (Suc i) rows (chain @ [s]) True = Done chain' hv'"
      using Cons.prems by simp
    then have "length (chain @ [s]) \<le> length chain'
        \<and> (hv' \<longleftrightarrow> True \<or> length (chain @ [s]) < length chain')" by (rule Cons.IH)
    then show ?thesis by auto
  next
    case Abort
    then show ?thesis using Cons.prems by simp
  next
    case (Throw e)
    then show ?thesis using Cons.prems by simp
  qed
qed

lemma buildChainFromSheet_complete:
  assumes len: "2 \<le> length data_rows"
    and pc: "columnDiscovery (data_rows ! 0) promptKeywords \<noteq> - 1"
    and tc: "\<forall>r \<in> set (drop 1 data_rows). \<forall>v.
        cell_at r (nat (columnDiscovery (data_rows ! 0) promptKeywords)) = Some v \<and> truthy v
          \<longrightarrow> (\<exists>s. v = CStr s)"
    and yes: "\<forall>t m. alert t m \<noteq> NO"
  shows "if List.map_filter (keptPrompt (columnDiscovery (data_rows ! 0) promptKeywords)) (drop 1 data_rows) = []
         then buildChainFromSheet ss sheet alert data_rows = Alerted ''No Valid Prompts''
         else (\<exists>chain. buildChainFromSheet ss sheet alert data_rows = Built chain
                 \<and> map prompt chain
                     = List.map_filter (keptPrompt (columnDiscovery (data_rows ! 0) promptKeywords))
                         (drop 1 data_rows))"
proof -
  let ?pc = "columnDiscovery (data_rows ! 0) promptKeywords"
  let ?body = "processRow ss sheet alert ?pc (columnDiscovery (data_rows ! 0) rangeKeywords)
                 (columnDiscovery (data_rows ! 0) includeKeywords)"
  have "\<exists>chain' hv'. buildLoop ?body 1 (drop 1 data_rows) [] False = Done chain' hv'"
  proof (rule buildLoop_total)
    fix j r assume "r \<in> set (drop 1 data_rows)"
    then have t: "\<forall>v. cell_at r (nat ?pc) = Some v \<and> truthy v \<longrightarrow> (\<exists>s. v = CStr s)"
      using tc by blast
    show "?body j r \<noteq> Abort \<and> (\<forall>e. ?body j r \<noteq> Throw e)"
      using processRow_no_abort [OF yes] processRow_no_throw [OF t] by blast
  qed
  then obtain chain' hv' where d: "buildLoop ?body 1 (drop 1 data_rows) [] False = Done chain' hv'"
    by blast
  have m: "map prompt chain' = List.map_filter (keptPrompt ?pc) (drop 1 data_rows)"
    using buildLoop_Done_map [where f = prompt and h = "keptPrompt ?pc",
        OF processRow_Push_prompt processRow_Skip_kept d]
    by simp
  have f: "hv' \<longleftrightarrow> chain' \<noteq> []" using buildLoop_Done_flag [OF d] by simp
  have run: "buildChainFromSheet ss sheet alert data_rows
      = (if \<not> hv' then Alerted ''No Valid Prompts'' else Built chain')"
    using len pc d by (simp add: buildChainFromSheet_def Let_def)
  show ?thesis
  proof (cases "chain' = []")
    case True
    then show ?thesis using run f m by simp
  next
    case False
    then have "List.map_filter (keptPrompt ?pc) (drop 1 data_rows) \<noteq> []" using m by auto
    then show ?thesis using run f m False by simp
  qed
qed

lemma buildChainFromSheet_declined:
  assumes "2 \<le> length data_rows"
    and "columnDiscovery (data_rows ! 0) promptKeywords \<noteq> - 1"
    and "buildLoop (processRow ss sheet alert (columnDiscovery (data_rows ! 0) promptKeywords)
            (columnDiscovery (data_rows ! 0) rangeKeywords)
            (columnDiscovery (data_rows ! 0) includeKeywords)) 1 (drop 1 data_rows) [] False
          = Declined"
  shows "buildChainFromSheet ss sheet alert data_rows = Alerted ''Data Range Issue''"
  using assms by (simp add: buildChainFromSheet_def Let_def)

lemma libProcessRow_kept:
  assumes "keptPrompt 0 row = Some p" and "libRangeData sheet row = Inr (Some d)"
  shows "libProcessRow sheet j row
           = Push \<lparr>prompt = p, data = d, includeLastResult = libIncludeLastResult (cell_at row 2)\<rparr>"
  using assms
  by (auto simp: libProcessRow_def keptPrompt_def Let_def split: option.splits cell.splits if_splits)

text \<open>
  C8, as the code has it. A row whose prompt cell is empty or white space only is skipped:
  the loop body does nothing for it, so it gives no step, no error, and does not set
  \<open>hasValidPrompts\<close>; so is a row whose prompt cell is falsy or missing. A row whose
  prompt cell is text with more than white space gives one step with that text as prompt,
  appended to the chain, unless its data range cannot be read and the user answers \<open>NO\<close>
  to the warning: then the loop is left and the builder returns after the alert
  \<open>Data Range Issue\<close>, without a chain. Whenever the builder completes, the prompts of
  the chain are the prompt cells that are text with more than white space, in row order,
  and nothing else. It completes, with such a chain, whenever the sheet has a header row
  with a prompt column and a data row, every truthy prompt cell is text, some prompt is
  not blank and the user never answers \<open>NO\<close>; with no prompt that is not blank it
  returns after the alert \<open>No Valid Prompts\<close>.
\<close>

theorem buildChainFromSheet_prompt_rows:
  "(blankPrompt promptCol row \<longrightarrow>
      processRow ss sheet alert promptCol rangeCol includeCol i row = Skip
      \<and> buildLoop (processRow ss sheet alert promptCol rangeCol includeCol) i (row # rows) promptChain hv
          = buildLoop (processRow ss sheet alert promptCol rangeCol includeCol) (Suc i) rows promptChain hv)
   \<and> (buildChainFromSheet ss sheet alert data_rows = Built chain \<longrightarrow>
        map prompt chain
          = List.map_filter (keptPrompt (columnDiscovery (data_rows ! 0) promptKeywords)) (drop 1 data_rows))
   \<and> ((\<forall>r \<in> set rows. \<forall>v. cell_at r (nat promptCol) = Some v \<and> truthy v \<longrightarrow> (\<exists>s. v = CStr s))
        \<and> (\<forall>t m. alert t m \<noteq> NO) \<longrightarrow>
        (\<exists>chain' hv'. buildLoop (processRow ss sheet alert promptCol rangeCol includeCol) i rows promptChain hv
            = Done chain' hv'))
   \<and> ((\<forall>v. cell_at row (nat promptCol) = Some v \<longrightarrow> \<not> truthy v) \<longrightarrow>
        processRow ss sheet alert promptCol rangeCol includeCol i row = Skip)
   \<and> (\<forall>p d. keptPrompt promptCol row = Some p
              \<and> rangeDataForRow ss sheet alert rangeCol i row = Some d \<longrightarrow>
        processRow ss sheet alert promptCol rangeCol includeCol i row
          = Push \<lparr>prompt = p, data = d, includeLastResult = includeForRow includeCol row\<rparr>
        \<and> buildLoop (processRow ss sheet alert promptCol rangeCol includeCol) i (row # rows) promptChain hv
          = buildLoop (processRow ss sheet alert promptCol rangeCol includeCol) (Suc i) rows
              (promptChain @ [\<lparr>prompt = p, data = d, includeLastResult = includeForRow includeCol row\<rparr>])
              True)
   \<and> (\<forall>p. keptPrompt promptCol row = Some p
            \<and> rangeDataForRow ss sheet alert rangeCol i row = None \<longrightarrow>
        processRow ss sheet alert promptCol rangeCol includeCol i row = Abort
        \<and> buildLoop (processRow ss sheet alert promptCol rangeCol includeCol) i (row # rows) promptChain hv
          = Declined)
   \<and> (rangeDataForRow ss sheet alert rangeCol i row = None \<longleftrightarrow>
        (\<exists>e. rangeCol \<noteq> - 1 \<and> (\<exists>v. cell_at row (nat rangeCol) = Some v \<and> truthy v)
           \<and> trim (String_at row (nat rangeCol)) \<noteq> []
           \<and> resolveReference ss sheet (trim (String_at row (nat rangeCol))) = Inl e
           \<and> alert ''Data Range Issue''
                (range_issue_message (trim (String_at row (nat rangeCol))) i e) = NO))
   \<and> (2 \<le> length data_rows \<and> columnDiscovery (data_rows ! 0) promptKeywords \<noteq> - 1
        \<and> (\<forall>r \<in> set (drop 1 data_rows). \<forall>v.
              cell_at r (nat (columnDiscovery (data_rows ! 0) promptKeywords)) = Some v \<and> truthy v
                \<longrightarrow> (\<exists>s. v = CStr s))
        \<and> (\<forall>t m. alert t m \<noteq> NO) \<longrightarrow>
        (if List.map_filter (keptPrompt (columnDiscovery (data_rows ! 0) promptKeywords))
              (drop 1 data_rows) = []
         then buildChainFromSheet ss sheet alert data_rows = Alerted ''No Valid Prompts''
         else (\<exists>built. buildChainFromSheet ss sheet alert data_rows = Built built
                 \<and> map prompt built
                     = List.map_filter (keptPrompt (columnDiscovery (data_rows ! 0) promptKeywords))
                         (drop 1 data_rows))))
   \<and> (2 \<le> length data_rows \<and> columnDiscovery (data_rows ! 0) promptKeywords \<noteq> - 1
        \<and> buildLoop (processRow ss sheet alert (columnDiscovery (data_rows ! 0) promptKeywords)
              (columnDiscovery (data_rows ! 0) rangeKeywords)
              (columnDiscovery (data_rows ! 0) includeKeywords)) 1 (drop 1 data_rows) [] False
            = Declined \<longrightarrow>
        buildChainFromSheet ss sheet alert data_rows = Alerted ''Data Range Issue'')"
proof -
  let ?body = "processRow ss sheet alert promptCol rangeCol includeCol"
  have c1: "blankPrompt promptCol row \<longrightarrow>
      ?body i row = Skip
      \<and> buildLoop ?body i (row # rows) promptChain hv = buildLoop ?body (Suc i) rows promptChain hv"
    by (simp add: processRow_blank)
  have c2: "buildChainFromSheet ss sheet alert data_rows = Built chain \<longrightarrow>
        map prompt chain
          = List.map_filter (keptPrompt (columnDiscovery (data_rows ! 0) promptKeywords)) (drop 1 data_rows)"
  proof
    assume "buildChainFromSheet ss sheet alert data_rows = Built chain"
    then obtain hv' where d: "buildLoop (processRow ss sheet alert (columnDiscovery (data_rows ! 0) promptKeywords)
            (columnDiscovery (data_rows ! 0) rangeKeywords)
            (columnDiscovery (data_rows ! 0) includeKeywords)) 1 (drop 1 data_rows) [] False
          = Done chain hv'"
      using buildChainFromSheet_Built_loop by blast
    show "map prompt chain
          = List.map_filter (keptPrompt (columnDiscovery (data_rows ! 0) promptKeywords)) (drop 1 data_rows)"
      using buildLoop_Done_map [where f = prompt and h = "keptPrompt (columnDiscovery (data_rows ! 0) promptKeywords)",
          OF processRow_Push_prompt processRow_Skip_kept d]
      by simp
  qed
  have c3: "(\<forall>r \<in> set rows. \<forall>v. cell_at r (nat promptCol) = Some v \<and> truthy v \<longrightarrow> (\<exists>s. v = CStr s))
        \<and> (\<forall>t m. alert t m \<noteq> NO) \<longrightarrow>
        (\<exists>chain' hv'. buildLoop ?body i rows promptChain hv = Done chain' hv')"
  proof
    assume a: "(\<forall>r \<in> set rows. \<forall>v. cell_at r (nat promptCol) = Some v \<and> truthy v \<longrightarrow> (\<exists>s. v = CStr s))
        \<and> (\<forall>t m. alert t m \<noteq> NO)"
    show "\<exists>chain' hv'. buildLoop ?body i rows promptChain hv = Done chain' hv'"
    proof (rule buildLoop_total)
      fix j r assume "r \<in> set rows"
      then have t: "\<forall>v. cell_at r (nat promptCol) = Some v \<and> truthy v \<longrightarrow> (\<exists>s. v = CStr s)"
        using a by blast
      show "?body j r \<noteq> Abort \<and> (\<forall>e. ?body j r \<noteq> Throw e)"
        using processRow_no_abort [of alert] processRow_no_throw [OF t] a by blast
    qed
  qed
  have c4: "(\<forall>v. cell_at row (nat promptCol) = Some v \<longrightarrow> \<not> truthy v) \<longrightarrow> ?body i row = Skip"
    using processRow_falsy by blast
  have c5: "\<forall>p d. keptPrompt promptCol row = Some p
              \<and> rangeDataForRow ss sheet alert rangeCol i row = Some d \<longrightarrow>
        ?body i row = Push \<lparr>prompt = p, data = d, includeLastResult = includeForRow includeCol row\<rparr>
        \<and> buildLoop ?body i (row # rows) promptChain hv
          = buildLoop ?body (Suc i) rows
              (promptChain @ [\<lparr>prompt = p, data = d, includeLastResult = includeForRow includeCol row\<rparr>])
              True"
    by (simp add: processRow_kept)
  have c6: "\<forall>p. keptPrompt promptCol row = Some p
            \<and> rangeDataForRow ss sheet alert rangeCol i row = None \<longrightarrow>
        ?body i row = Abort \<and> buildLoop ?body i (row # rows) promptChain hv = Declined"
    by (simp add: processRow_kept)
  note c7 = rangeDataForRow_None_iff [of ss sheet alert rangeCol i row]
  have c8: "2 \<le> length data_rows \<and> columnDiscovery (data_rows ! 0) promptKeywords \<noteq> - 1
        \<and> (\<forall>r \<in> set (drop 1 data_rows). \<forall>v.
              cell_at r (nat (columnDiscovery (data_rows ! 0) promptKeywords)) = Some v \<and> truthy v
                \<longrightarrow> (\<exists>s. v = CStr s))
        \<and> (\<forall>t m. alert t m \<noteq> NO) \<longrightarrow>
        (if List.map_filter (keptPrompt (columnDiscovery (data_rows ! 0) promptKeywords))
              (drop 1 data_rows) = []
         then buildChainFromSheet ss sheet alert data_rows = Alerted ''No Valid Prompts''
         else (\<exists>built. buildChainFromSheet ss sheet alert data_rows = Built built
                 \<and> map prompt built
                     = List.map_filter (keptPrompt (columnDiscovery (data_rows ! 0) promptKeywords))
                         (drop 1 data_rows)))"
    using buildChainFromSheet_complete [of data_rows alert ss sheet] by blast
  have c9: "2 \<le> length data_rows \<and> columnDiscovery (data_rows ! 0) promptKeywords \<noteq> - 1
        \<and> buildLoop (processRow ss sheet alert (columnDiscovery (data_rows ! 0) promptKeywords)
              (columnDiscovery (data_rows ! 0) rangeKeywords)
              (columnDiscovery (data_rows ! 0) includeKeywords)) 1 (drop 1 data_rows) [] False
            = Declined \<longrightarrow>
        buildChainFromSheet ss sheet alert data_rows = Alerted ''Data Range Issue''"
    using buildChainFromSheet_declined by blast
  show ?thesis
    by (intro conjI) (rule c1 c2 c3 c4 c5 c6 c7 c8 c9)+
qed

theorem buildChainFromSheet_prompt_rows_witness:
  "blankPrompt 0 [CStr [CHR 0xA0, CHR 0x20], CStr '''', CStr '''']
   \<and> buildChainFromSheet \<lparr>getSheetByName = (\<lambda>n. None), getRangeByName = (\<lambda>n. Inr None)\<rparr>
        (\<lambda>a. if a = ''A1:B2'' then Inr [[CStr ''x'', CNum 1], [CStr ''y'', CNum 2]]
              else Inl (Error ''Range not found''))
        (\<lambda>t m. YES)
        [[CStr ''prompt'', CStr ''range'', CStr ''include''],
         [CStr ''Summarize'', CStr ''A1:B2'', CStr ''NO''],
         [CStr [CHR 0xA0, CHR 0x20], CStr '''', CStr ''''],
         [CStr ''Elaborate'', CStr '''', CStr ''YES'']]
      = Built [\<lparr>prompt = ''Summarize'', data = [[CStr ''x'', CNum 1], [CStr ''y'', CNum 2]],
                 includeLastResult = False\<rparr>,
               \<lparr>prompt = ''Elaborate'', data = [], includeLastResult = True\<rparr>]
   \<and> List.map_filter (keptPrompt 0)
        [[CStr ''Summarize'', CStr ''A1:B2'', CStr ''NO''],
         [CStr [CHR 0xA0, CHR 0x20], CStr '''', CStr ''''],
         [CStr ''Elaborate'', CStr '''', CStr ''YES'']]
      = [''Summarize'', ''Elaborate'']
   \<and> processRow \<lparr>getSheetByName = (\<lambda>n. None), getRangeByName = (\<lambda>n. Inr None)\<rparr>
        (\<lambda>a. if a = ''A1:B2'' then Inr [[CStr ''x'', CNum 1], [CStr ''y'', CNum 2]]
              else Inl (Error ''Range not found''))
        (\<lambda>t m. YES) 0 1 2 2 [CNum 0, CStr '''', CStr ''''] = Skip
   \<and> processRow \<lparr>getSheetByName = (\<lambda>n. None), getRangeByName = (\<lambda>n. Inr None)\<rparr>
        (\<lambda>a. if a = ''A1:B2'' then Inr [[CStr ''x'', CNum 1], [CStr ''y'', CNum 2]]
              else Inl (Error ''Range not found''))
        (\<lambda>t m. YES) 0 1 2 1 [CStr ''Summarize'', CStr ''A1:B2'', CStr ''NO'']
      = Push \<lparr>prompt = ''Summarize'', data = [[CStr ''x'', CNum 1], [CStr ''y'', CNum 2]],
               includeLastResult = False\<rparr>
   \<and> rangeDataForRow \<lparr>getSheetByName = (\<lambda>n. None), getRangeByName = (\<lambda>n. Inr None)\<rparr>
        (\<lambda>a. if a = ''A1:B2'' then Inr [[CStr ''x'', CNum 1], [CStr ''y'', CNum 2]]
              else Inl (Error ''Range not found''))
        (\<lambda>t m. NO) 1 1 [CStr ''Summarize'', CStr ''Nope'', CStr ''NO''] = None
   \<and> processRow \<lparr>getSheetByName = (\<lambda>n. None), getRangeByName = (\<lambda>n. Inr None)\<rparr>
        (\<lambda>a. if a = ''A1:B2'' then Inr [[CStr ''x'', CNum 1], [CStr ''y'', CNum 2]]
              else Inl (Error ''Range not found''))
        (\<lambda>t m. NO) 0 1 2 1 [CStr ''Summarize'', CStr ''Nope'', CStr ''NO''] = Abort
   \<and> buildChainFromSheet \<lparr>getSheetByName = (\<lambda>n. None), getRangeByName = (\<lambda>n. Inr None)\<rparr>
        (\<lambda>a. if a = ''A1:B2'' then Inr [[CStr ''x'', CNum 1], [CStr ''y'', CNum 2]]
              else Inl (Error ''Range not found''))
        (\<lambda>t m. NO)
        [[CStr ''prompt'', CStr ''range'', CStr ''include''],
         [CStr ''Summarize'', CStr ''Nope'', CStr ''NO''],
         [CStr ''Elaborate'', CStr '''', CStr ''YES'']]
      = Alerted ''Data Range Issue''"
proof -
  let ?ss = "\<lparr>getSheetByName = (\<lambda>n. None), getRangeByName = (\<lambda>n. Inr None)\<rparr>"
  let ?sh = "\<lambda>a. if a = ''A1:B2'' then Inr [[CStr ''x'', CNum 1], [CStr ''y'', CNum 2]]
              else Inl (Error ''Range not found'')"
  let ?yes = "\<lambda>(t::string) (m::string). YES"
  let ?no = "\<lambda>(t::string) (m::string). NO"
  let ?header = "[CStr ''prompt'', CStr ''range'', CStr ''include'']"
  let ?first = "[CStr ''Summarize'', CStr ''A1:B2'', CStr ''NO'']"
  let ?blank = "[CStr [CHR 0xA0, CHR 0x20], CStr '''', CStr '''']"
  let ?last = "[CStr ''Elaborate'', CStr '''', CStr ''YES'']"
  let ?zero = "[CNum 0, CStr '''', CStr '''']"
  let ?bad = "[CStr ''Summarize'', CStr ''Nope'', CStr ''NO'']"
  let ?dataA = "[?header, ?first, ?blank, ?last]"
  let ?dataB = "[?header, ?bad, ?last]"
  let ?tab = "[[CStr ''x'', CNum 1], [CStr ''y'', CNum 2]]"
  let ?s1 = "\<lparr>prompt = ''Summarize'', data = ?tab, includeLastResult = False\<rparr>"
  let ?chain = "[?s1, \<lparr>prompt = ''Elaborate'', data = [], includeLastResult = True\<rparr>]"
  note TA = buildChainFromSheet_prompt_rows [where promptCol = 0 and row = ?blank and ss = ?ss
      and sheet = ?sh and alert = ?yes and rangeCol = 1 and includeCol = 2 and i = 2
      and rows = "[?last]" and promptChain = "[]" and hv = False and data_rows = ?dataA
      and chain = ?chain]
  note TZ = buildChainFromSheet_prompt_rows [where promptCol = 0 and row = ?zero and ss = ?ss
      and sheet = ?sh and alert = ?yes and rangeCol = 1 and includeCol = 2 and i = 2
      and rows = "[?last]" and promptChain = "[]" and hv = False and data_rows = ?dataA
      and chain = ?chain]
  note TF = buildChainFromSheet_prompt_rows [where promptCol = 0 and row = ?first and ss = ?ss
      and sheet = ?sh and alert = ?yes and rangeCol = 1 and includeCol = 2 and i = 1
      and rows = "[?last]" and promptChain = "[]" and hv = False and data_rows = ?dataA
      and chain = ?chain]
  note TB = buildChainFromSheet_prompt_rows [where promptCol = 0 and row = ?bad and ss = ?ss
      and sheet = ?sh and alert = ?no and rangeCol = 1 and includeCol = 2 and i = 1
      and rows = "[?last]" and promptChain = "[]" and hv = False and data_rows = ?dataB
      and chain = ?chain]
  have pcA: "columnDiscovery (?dataA ! 0) promptKeywords = 0" by code_simp
  have pcB: "columnDiscovery (?dataB ! 0) promptKeywords = 0" by code_simp
  have rcB: "columnDiscovery (?dataB ! 0) rangeKeywords = 1" by code_simp
  have icB: "columnDiscovery (?dataB ! 0) includeKeywords = 2" by code_simp
  have h1: "blankPrompt 0 ?blank" by code_simp
  have h2: "buildChainFromSheet ?ss ?sh ?yes ?dataA = Built ?chain" by code_simp
  have h3: "(\<forall>r \<in> set [?last]. \<forall>v. cell_at r (nat 0) = Some v \<and> truthy v \<longrightarrow> (\<exists>s. v = CStr s))
        \<and> (\<forall>t m. ?yes t m \<noteq> NO)"
    by (simp add: cell_at_def)
  have h4: "\<forall>v. cell_at ?zero (nat 0) = Some v \<longrightarrow> \<not> truthy v" by (simp add: cell_at_def)
  have h5: "keptPrompt 0 ?first = Some ''Summarize'' \<and> rangeDataForRow ?ss ?sh ?yes 1 1 ?first = Some ?tab"
    by code_simp
  have h6: "keptPrompt 0 ?bad = Some ''Summarize''" by code_simp
  have h8: "2 \<le> length ?dataA \<and> columnDiscovery (?dataA ! 0) promptKeywords \<noteq> - 1
        \<and> (\<forall>r \<in> set (drop 1 ?dataA). \<forall>v.
              cell_at r (nat (columnDiscovery (?dataA ! 0) promptKeywords)) = Some v \<and> truthy v
                \<longrightarrow> (\<exists>s. v = CStr s))
        \<and> (\<forall>t m. ?yes t m \<noteq> NO)"
    unfolding pcA by (simp add: cell_at_def)
  have m: "List.map_filter (keptPrompt 0) [?first, ?blank, ?last] = [''Summarize'', ''Elaborate'']"
    by code_simp
  have c1: "processRow ?ss ?sh ?yes 0 1 2 2 ?blank = Skip" using TA h1 by blast
  have c2: "map prompt ?chain
      = List.map_filter (keptPrompt (columnDiscovery (?dataA ! 0) promptKeywords)) (drop 1 ?dataA)"
    using TA h2 by blast
  have c3: "\<exists>chain' hv'. buildLoop (processRow ?ss ?sh ?yes 0 1 2) 2 [?last] [] False = Done chain' hv'"
    using TA h3 by blast
  have c4: "processRow ?ss ?sh ?yes 0 1 2 2 ?zero = Skip" using TZ h4 by blast
  have c5: "processRow ?ss ?sh ?yes 0 1 2 1 ?first = Push ?s1"
  proof -
    have "processRow ?ss ?sh ?yes 0 1 2 1 ?first
        = Push \<lparr>prompt = ''Summarize'', data = ?tab, includeLastResult = includeForRow 2 ?first\<rparr>"
      using TF h5 by blast
    moreover have "includeForRow 2 ?first = False" by code_simp
    ultimately show ?thesis by simp
  qed
  have c7: "rangeDataForRow ?ss ?sh ?no 1 1 ?bad = None"
  proof -
    have "rangeDataForRow ?ss ?sh ?no 1 1 ?bad = None \<longleftrightarrow>
        (\<exists>e. (1::int) \<noteq> - 1 \<and> (\<exists>v. cell_at ?bad (nat 1) = Some v \<and> truthy v)
           \<and> trim (String_at ?bad (nat 1)) \<noteq> []
           \<and> resolveReference ?ss ?sh (trim (String_at ?bad (nat 1))) = Inl e
           \<and> ?no ''Data Range Issue'' (range_issue_message (trim (String_at ?bad (nat 1))) 1 e) = NO)"
      using TB by blast
    moreover have "(1::int) \<noteq> - 1 \<and> (\<exists>v. cell_at ?bad (nat 1) = Some v \<and> truthy v)
           \<and> trim (String_at ?bad (nat 1)) \<noteq> []
           \<and> resolveReference ?ss ?sh (trim (String_at ?bad (nat 1))) = Inl (Error ''Range not found'')
           \<and> ?no ''Data Range Issue''
                (range_issue_message (trim (String_at ?bad (nat 1))) 1 (Error ''Range not found'')) = NO"
    proof (intro conjI)
      show "(1::int) \<noteq> - 1" by simp
      show "\<exists>v. cell_at ?bad (nat 1) = Some v \<and> truthy v"
        by (rule exI [of _ "CStr ''Nope''"]) code_simp
      show "trim (String_at ?bad (nat 1)) \<noteq> []" by code_simp
      show "resolveReference ?ss ?sh (trim (String_at ?bad (nat 1))) = Inl (Error ''Range not found'')"
        by code_simp
      show "?no ''Data Range Issue''
                (range_issue_message (trim (String_at ?bad (nat 1))) 1 (Error ''Range not found'')) = NO"
        by simp
    qed
    ultimately show ?thesis by (elim iffD2) (rule exI)
  qed
  have c6: "processRow ?ss ?sh ?no 0 1 2 1 ?bad = Abort
      \<and> buildLoop (processRow ?ss ?sh ?no 0 1 2) 1 (?bad # [?last]) [] False = Declined"
    using TB h6 c7 by blast
  have h9: "2 \<le> length ?dataB \<and> columnDiscovery (?dataB ! 0) promptKeywords \<noteq> - 1
        \<and> buildLoop (processRow ?ss ?sh ?no (columnDiscovery (?dataB ! 0) promptKeywords)
              (columnDiscovery (?dataB ! 0) rangeKeywords)
              (columnDiscovery (?dataB ! 0) includeKeywords)) 1 (drop 1 ?dataB) [] False
            = Declined"
    unfolding pcB rcB icB using c6 by simp
  have c9: "buildChainFromSheet ?ss ?sh ?no ?dataB = Alerted ''Data Range Issue''"
    using TB h9 by blast
  have c8: "\<exists>built. buildChainFromSheet ?ss ?sh ?yes ?dataA = Built built
       \<and> map prompt built = List.map_filter (keptPrompt 0) (drop 1 ?dataA)"
  proof -
    have "List.map_filter (keptPrompt (columnDiscovery (?dataA ! 0) promptKeywords)) (drop 1 ?dataA) \<noteq> []"
      unfolding pcA using m by simp
    then show ?thesis using TA h8 unfolding pcA by presburger
  qed
  show ?thesis using h1 h2 m c1 c2 c3 c4 c5 c6 c7 c8 c9 by simp
qed

text \<open>
  C8 as stated fails: when the data range of a row cannot be read and the user answers
  \<open>NO\<close>, the builder returns without a chain, so a row with a proper prompt gives no
  step; and a row whose prompt cell is the number 0 is skipped although the cell is
  neither empty nor white space.
\<close>

theorem buildChainFromSheet_prompt_rows_counterexample:
  "\<not> blankPrompt 0 [CStr ''Summarize'', CStr ''Nope'']
   \<and> buildChainFromSheet \<lparr>getSheetByName = (\<lambda>n. None), getRangeByName = (\<lambda>n. Inr None)\<rparr>
        (\<lambda>a. Inl (Error ''Range not found'')) (\<lambda>t m. NO)
        [[CStr ''Prompt'', CStr ''Range''], [CStr ''Summarize'', CStr ''Nope'']]
      = Alerted ''Data Range Issue''
   \<and> \<not> blankPrompt 0 [CNum 0]
   \<and> buildChainFromSheet \<lparr>getSheetByName = (\<lambda>n. None), getRangeByName = (\<lambda>n. Inr None)\<rparr>
        (\<lambda>a. Inl (Error ''Range not found'')) (\<lambda>t m. NO)
        [[CStr ''Prompt''], [CNum 0], [CStr ''Go'']]
      = Built [\<lparr>prompt = ''Go'', data = [], includeLastResult = False\<rparr>]"
  by code_simp

lemma buildLoop_processRow_include:
  assumes d: "buildLoop (processRow ss sheet alert pc rc ic) i rows chain hv = Done chain' hv'"
  shows "map includeLastResult chain'
           = map includeLastResult chain
               @ map (includeForRow ic) (filter (\<lambda>row. keptPrompt pc row \<noteq> None) rows)"
proof -
  let ?h = "\<lambda>row. if keptPrompt pc row \<noteq> None then Some (includeForRow ic row) else None"
  have "map includeLastResult chain' = map includeLastResult chain @ List.map_filter ?h rows"
  proof (rule buildLoop_Done_map [where body = "processRow ss sheet alert pc rc ic"])
    fix j row s
    assume p: "processRow ss sheet alert pc rc ic j row = Push s"
    show "?h row = Some (includeLastResult s)"
      using processRow_Push_prompt [OF p] processRow_Push_include [OF p] by simp
  next
    fix j row
    assume "processRow ss sheet alert pc rc ic j row = Skip"
    then show "?h row = None" by (simp add: processRow_Skip_kept)
  next
    show "buildLoop (processRow ss sheet alert pc rc ic) i rows chain hv = Done chain' hv'"
      by (rule d)
  qed
  then show ?thesis by (simp add: map_filter_map_filter)
qed

lemma buildLoop_libProcessRow_include:
  assumes d: "buildLoop (libProcessRow sheet) i rows chain hv = Done chain' hv'"
  shows "map includeLastResult chain'
           = map includeLastResult chain
               @ map (\<lambda>row. libIncludeLastResult (cell_at row 2))
                   (filter (\<lambda>row. keptPrompt 0 row \<noteq> None) rows)"
proof -
  let ?h = "\<lambda>row. if keptPrompt 0 row \<noteq> None then Some (libIncludeLastResult (cell_at row 2)) else None"
  have "map includeLastResult chain' = map includeLastResult chain @ List.map_filter ?h rows"
  proof (rule buildLoop_Done_map [where body = "libProcessRow sheet"])
    fix j row s
    assume p: "libProcessRow sheet j row = Push s"
    show "?h row = Some (includeLastResult s)"
      using libProcessRow_Push_kept [OF p] libProcessRow_Push_include [OF p] by simp
  next
    fix j row
    assume "libProcessRow sheet j row = Skip"
    then show "?h row = None" by (simp add: libProcessRow_Skip_kept)
  next
    show "buildLoop (libProcessRow sheet) i rows chain hv = Done chain' hv'"
      by (rule d)
  qed
  then show ?thesis by (simp add: map_filter_map_filter)
qed

text \<open>
  C9, as the code has it. In a chain built by the client, the flag of each step is true
  exactly when an include column was found and the text of the row's include cell,
  lower-cased and trimmed, is \<open>yes\<close>, \<open>true\<close> or \<open>1\<close>. In a chain built by the
  library's \<open>showChainDialog\<close>, the flag is true exactly when the cell in column 2 is the
  boolean \<open>true\<close> or the text \<open>true\<close>. Row by row: a row with a prompt that is not blank
  and data that could be read gives the step with exactly that flag, in either builder;
  and the client's builder does complete under the conditions given for C8.
\<close>

theorem includeLastResult_of_built_steps:
  "(buildChainFromSheet ss sheet alert data_rows = Built chain \<longrightarrow>
      map includeLastResult chain
        = map (\<lambda>row. columnDiscovery (data_rows ! 0) includeKeywords \<noteq> - 1
                  \<and> trim (toLowerCase (String_at row (nat (columnDiscovery (data_rows ! 0) includeKeywords))))
                      \<in> {''yes'', ''true'', ''1''})
            (filter (\<lambda>row. keptPrompt (columnDiscovery (data_rows ! 0) promptKeywords) row \<noteq> None)
               (drop 1 data_rows)))
   \<and> (showChainDialogBuild lib_sheet lib_rows = Built lib_chain \<longrightarrow>
      map includeLastResult lib_chain
        = map (\<lambda>row. cell_at row 2 = Some (CBool True) \<or> cell_at row 2 = Some (CStr ''true''))
            (filter (\<lambda>row. keptPrompt 0 row \<noteq> None) (drop 1 lib_rows)))
   \<and> (\<forall>p d. keptPrompt promptCol row = Some p
              \<and> rangeDataForRow ss sheet alert rangeCol i row = Some d \<longrightarrow>
        processRow ss sheet alert promptCol rangeCol includeCol i row
          = Push \<lparr>prompt = p, data = d,
                  includeLastResult =
                    (includeCol \<noteq> - 1
                     \<and> trim (toLowerCase (String_at row (nat includeCol))) \<in> {''yes'', ''true'', ''1''})\<rparr>)
   \<and> (\<forall>p d. keptPrompt 0 lib_row = Some p \<and> libRangeData lib_sheet lib_row = Inr (Some d) \<longrightarrow>
        libProcessRow lib_sheet j lib_row
          = Push \<lparr>prompt = p, data = d,
                  includeLastResult =
                    (cell_at lib_row 2 = Some (CBool True) \<or> cell_at lib_row 2 = Some (CStr ''true''))\<rparr>)
   \<and> (2 \<le> length data_rows \<and> columnDiscovery (data_rows ! 0) promptKeywords \<noteq> - 1
        \<and> (\<forall>r \<in> set (drop 1 data_rows). \<forall>v.
              cell_at r (nat (columnDiscovery (data_rows ! 0) promptKeywords)) = Some v \<and> truthy v
                \<longrightarrow> (\<exists>s. v = CStr s))
        \<and> (\<forall>t m. alert t m \<noteq> NO)
        \<and> List.map_filter (keptPrompt (columnDiscovery (data_rows ! 0) promptKeywords))
              (drop 1 data_rows) \<noteq> [] \<longrightarrow>
        (\<exists>built. buildChainFromSheet ss sheet alert data_rows = Built built
           \<and> map includeLastResult built
               = map (\<lambda>row. columnDiscovery (data_rows ! 0) includeKeywords \<noteq> - 1
                        \<and> trim (toLowerCase
                              (String_at row (nat (columnDiscovery (data_rows ! 0) includeKeywords))))
                            \<in> {''yes'', ''true'', ''1''})
                   (filter (\<lambda>row. keptPrompt (columnDiscovery (data_rows ! 0) promptKeywords) row \<noteq> None)
                      (drop 1 data_rows))))"
proof -
  let ?pc = "columnDiscovery (data_rows ! 0) promptKeywords"
  let ?rc = "columnDiscovery (data_rows ! 0) rangeKeywords"
  let ?ic = "columnDiscovery (data_rows ! 0) includeKeywords"
  let ?flags = "map (\<lambda>row. ?ic \<noteq> - 1 \<and> trim (toLowerCase (String_at row (nat ?ic))) \<in> {''yes'', ''true'', ''1''})
            (filter (\<lambda>row. keptPrompt ?pc row \<noteq> None) (drop 1 data_rows))"
  have client: "\<And>built. buildChainFromSheet ss sheet alert data_rows = Built built
      \<Longrightarrow> map includeLastResult built = ?flags"
  proof -
    fix built
    assume "buildChainFromSheet ss sheet alert data_rows = Built built"
    then obtain hv' where d: "buildLoop (processRow ss sheet alert ?pc ?rc ?ic) 1 (drop 1 data_rows) [] False
          = Done built hv'"
      using buildChainFromSheet_Built_loop by blast
    show "map includeLastResult built = ?flags"
      using buildLoop_processRow_include [OF d] by (simp add: includeForRow_def Let_def)
  qed
  have c1: "buildChainFromSheet ss sheet alert data_rows = Built chain \<longrightarrow>
      map includeLastResult chain = ?flags"
    using client by blast
  have c2: "showChainDialogBuild lib_sheet lib_rows = Built lib_chain \<longrightarrow>
      map includeLastResult lib_chain
        = map (\<lambda>row. cell_at row 2 = Some (CBool True) \<or> cell_at row 2 = Some (CStr ''true''))
            (filter (\<lambda>row. keptPrompt 0 row \<noteq> None) (drop 1 lib_rows))"
  proof
    assume "showChainDialogBuild lib_sheet lib_rows = Built lib_chain"
    then obtain hv' where d: "buildLoop (libProcessRow lib_sheet) 1 (drop 1 lib_rows) [] False = Done lib_chain hv'"
      using showChainDialogBuild_Built_loop by blast
    show "map includeLastResult lib_chain
        = map (\<lambda>row. cell_at row 2 = Some (CBool True) \<or> cell_at row 2 = Some (CStr ''true''))
            (filter (\<lambda>row. keptPrompt 0 row \<noteq> None) (drop 1 lib_rows))"
      using buildLoop_libProcessRow_include [OF d] by (simp add: libIncludeLastResult_def)
  qed
  have c3: "\<forall>p d. keptPrompt promptCol row = Some p
              \<and> rangeDataForRow ss sheet alert rangeCol i row = Some d \<longrightarrow>
        processRow ss sheet alert promptCol rangeCol includeCol i row
          = Push \<lparr>prompt = p, data = d,
                  includeLastResult =
                    (includeCol \<noteq> - 1
                     \<and> trim (toLowerCase (String_at row (nat includeCol))) \<in> {''yes'', ''true'', ''1''})\<rparr>"
    by (simp add: processRow_kept includeForRow_def Let_def)
  have c4: "\<forall>p d. keptPrompt 0 lib_row = Some p \<and> libRangeData lib_sheet lib_row = Inr (Some d) \<longrightarrow>
        libProcessRow lib_sheet j lib_row
          = Push \<lparr>prompt = p, data = d,
                  includeLastResult =
                    (cell_at lib_row 2 = Some (CBool True) \<or> cell_at lib_row 2 = Some (CStr ''true''))\<rparr>"
    by (simp add: libProcessRow_kept libIncludeLastResult_def)
  have c5: "2 \<le> length data_rows \<and> ?pc \<noteq> - 1
        \<and> (\<forall>r \<in> set (drop 1 data_rows). \<forall>v.
              cell_at r (nat ?pc) = Some v \<and> truthy v \<longrightarrow> (\<exists>s. v = CStr s))
        \<and> (\<forall>t m. alert t m \<noteq> NO)
        \<and> List.map_filter (keptPrompt ?pc) (drop 1 data_rows) \<noteq> [] \<longrightarrow>
        (\<exists>built. buildChainFromSheet ss sheet alert data_rows = Built built
           \<and> map includeLastResult built = ?flags)"
  proof
    assume a: "2 \<le> length data_rows \<and> ?pc \<noteq> - 1
        \<and> (\<forall>r \<in> set (drop 1 data_rows). \<forall>v.
              cell_at r (nat ?pc) = Some v \<and> truthy v \<longrightarrow> (\<exists>s. v = CStr s))
        \<and> (\<forall>t m. alert t m \<noteq> NO)
        \<and> List.map_filter (keptPrompt ?pc) (drop 1 data_rows) \<noteq> []"
    then have "\<exists>built. buildChainFromSheet ss sheet alert data_rows = Built built
                 \<and> map prompt built = List.map_filter (keptPrompt ?pc) (drop 1 data_rows)"
      using buildChainFromSheet_complete [of data_rows alert ss sheet] by simp
    then obtain built where b: "buildChainFromSheet ss sheet alert data_rows = Built built" by blast
    show "\<exists>built. buildChainFromSheet ss sheet alert data_rows = Built built
           \<and> map includeLastResult built = ?flags"
      using b client [OF b] by blast
  qed
  show ?thesis
    by (intro conjI) (rule c1 c2 c3 c4 c5)+
qed

theorem includeLastResult_of_built_steps_witness:
  "buildChainFromSheet \<lparr>getSheetByName = (\<lambda>n. None), getRangeByName = (\<lambda>n. Inr None)\<rparr>
        (\<lambda>a. Inl (Error ''Range not found'')) (\<lambda>t m. YES)
        [[CStr ''Prompt'', CStr ''Range'', CStr ''Include previous''],
         [CStr ''Summarize'', CStr '''', CStr ''no''],
         [CStr ''Elaborate'', CStr '''', CStr ('' Yes'' @ [CHR 0xA0])],
         [CStr ''Conclude'', CStr '''', CNum 1]]
      = Built [\<lparr>prompt = ''Summarize'', data = [], includeLastResult = False\<rparr>,
               \<lparr>prompt = ''Elaborate'', data = [], includeLastResult = True\<rparr>,
               \<lparr>prompt = ''Conclude'', data = [], includeLastResult = True\<rparr>]
   \<and> showChainDialogBuild (\<lambda>a. Inl (Error ''Range not found''))
        [[CStr ''Prompt'', CStr ''Range'', CStr ''Include previous''],
         [CStr ''Summarize'', CStr '''', CStr ''no''],
         [CStr ''Elaborate'', CStr '''', CBool True],
         [CStr ''Conclude'', CStr '''', CStr ''true'']]
      = Built [\<lparr>prompt = ''Summarize'', data = [], includeLastResult = False\<rparr>,
               \<lparr>prompt = ''Elaborate'', data = [], includeLastResult = True\<rparr>,
               \<lparr>prompt = ''Conclude'', data = [], includeLastResult = True\<rparr>]
   \<and> [False, True, True]
      = map (\<lambda>row. trim (toLowerCase (String_at row 2)) \<in> {''yes'', ''true'', ''1''})
          [[CStr ''Summarize'', CStr '''', CStr ''no''],
           [CStr ''Elaborate'', CStr '''', CStr ('' Yes'' @ [CHR 0xA0])],
           [CStr ''Conclude'', CStr '''', CNum 1]]
   \<and> processRow \<lparr>getSheetByName = (\<lambda>n. None), getRangeByName = (\<lambda>n. Inr None)\<rparr>
        (\<lambda>a. Inl (Error ''Range not found'')) (\<lambda>t m. YES) 0 1 2 2
        [CStr ''Elaborate'', CStr '''', CStr ('' Yes'' @ [CHR 0xA0])]
      = Push \<lparr>prompt = ''Elaborate'', data = [], includeLastResult = True\<rparr>
   \<and> libProcessRow (\<lambda>a. Inl (Error ''Range not found'')) 2
        [CStr ''Elaborate'', CStr '''', CBool True]
      = Push \<lparr>prompt = ''Elaborate'', data = [], includeLastResult = True\<rparr>"
proof -
  let ?ss = "\<lparr>getSheetByName = (\<lambda>n. None), getRangeByName = (\<lambda>n. Inr None)\<rparr>"
  let ?sh = "\<lambda>a::string. (Inl (Error ''Range not found'') :: js_error + table)"
  let ?al = "\<lambda>(t::string) (m::string). YES"
  let ?r2 = "[CStr ''Elaborate'', CStr '''', CStr ('' Yes'' @ [CHR 0xA0])]"
  let ?rows = "[[CStr ''Summarize'', CStr '''', CStr ''no''], ?r2,
         [CStr ''Conclude'', CStr '''', CNum 1]]"
  let ?data = "[CStr ''Prompt'', CStr ''Range'', CStr ''Include previous''] # ?rows"
  let ?l2 = "[CStr ''Elaborate'', CStr '''', CBool True]"
  let ?data' = "[[CStr ''Prompt'', CStr ''Range'', CStr ''Include previous''],
         [CStr ''Summarize'', CStr '''', CStr ''no''], ?l2,
         [CStr ''Conclude'', CStr '''', CStr ''true'']]"
  let ?chain = "[\<lparr>prompt = ''Summarize'', data = [], includeLastResult = False\<rparr>,
               \<lparr>prompt = ''Elaborate'', data = [], includeLastResult = True\<rparr>,
               \<lparr>prompt = ''Conclude'', data = [], includeLastResult = True\<rparr>]"
  note T = includeLastResult_of_built_steps [where ss = ?ss and sheet = ?sh and alert = ?al
      and data_rows = ?data and chain = ?chain and lib_sheet = ?sh and lib_rows = ?data'
      and lib_chain = ?chain and promptCol = 0 and row = ?r2 and rangeCol = 1 and i = 2
      and includeCol = 2 and lib_row = ?l2 and j = 2]
  have h1: "buildChainFromSheet ?ss ?sh ?al ?data = Built ?chain" by code_simp
  have h2: "showChainDialogBuild ?sh ?data' = Built ?chain" by code_simp
  have pc: "columnDiscovery (?data ! 0) promptKeywords = 0" by code_simp
  have ic: "columnDiscovery (?data ! 0) includeKeywords = 2" by code_simp
  have k: "filter (\<lambda>row. keptPrompt 0 row \<noteq> None) ?rows = ?rows" by code_simp
  have k': "List.map_filter (keptPrompt 0) ?rows \<noteq> []" by code_simp
  have h3: "keptPrompt 0 ?r2 = Some ''Elaborate'' \<and> rangeDataForRow ?ss ?sh ?al 1 2 ?r2 = Some []"
    by code_simp
  have h4: "keptPrompt 0 ?l2 = Some ''Elaborate'' \<and> libRangeData ?sh ?l2 = Inr (Some [])"
    by code_simp
  have h5: "2 \<le> length ?data \<and> columnDiscovery (?data ! 0) promptKeywords \<noteq> - 1
        \<and> (\<forall>r \<in> set (drop 1 ?data). \<forall>v.
              cell_at r (nat (columnDiscovery (?data ! 0) promptKeywords)) = Some v \<and> truthy v
                \<longrightarrow> (\<exists>s. v = CStr s))
        \<and> (\<forall>t m. ?al t m \<noteq> NO)
        \<and> List.map_filter (keptPrompt (columnDiscovery (?data ! 0) promptKeywords)) (drop 1 ?data) \<noteq> []"
    unfolding pc using k' by (simp add: cell_at_def)
  have c1: "map includeLastResult ?chain
        = map (\<lambda>row. columnDiscovery (?data ! 0) includeKeywords \<noteq> - 1
                  \<and> trim (toLowerCase (String_at row (nat (columnDiscovery (?data ! 0) includeKeywords))))
                      \<in> {''yes'', ''true'', ''1''})
            (filter (\<lambda>row. keptPrompt (columnDiscovery (?data ! 0) promptKeywords) row \<noteq> None)
               (drop 1 ?data))"
    using T h1 by blast
  then have c1': "[False, True, True]
      = map (\<lambda>row. trim (toLowerCase (String_at row 2)) \<in> {''yes'', ''true'', ''1''}) ?rows"
    unfolding pc ic using k by simp
  have c2: "map includeLastResult ?chain
        = map (\<lambda>row. cell_at row 2 = Some (CBool True) \<or> cell_at row 2 = Some (CStr ''true''))
            (filter (\<lambda>row. keptPrompt 0 row \<noteq> None) (drop 1 ?data'))"
    using T h2 by blast
  have c3: "processRow ?ss ?sh ?al 0 1 2 2 ?r2
          = Push \<lparr>prompt = ''Elaborate'', data = [],
                  includeLastResult =
                    ((2::int) \<noteq> - 1
                     \<and> trim (toLowerCase (String_at ?r2 (nat 2))) \<in> {''yes'', ''true'', ''1''})\<rparr>"
    using T h3 by blast
  have f3: "trim (toLowerCase (String_at ?r2 (nat 2))) = ''yes''" by code_simp
  have c3': "processRow ?ss ?sh ?al 0 1 2 2 ?r2
      = Push \<lparr>prompt = ''Elaborate'', data = [], includeLastResult = True\<rparr>"
    using c3 unfolding f3 by simp
  have c4: "libProcessRow ?sh 2 ?l2
          = Push \<lparr>prompt = ''Elaborate'', data = [],
                  includeLastResult =
                    (cell_at ?l2 2 = Some (CBool True) \<or> cell_at ?l2 2 = Some (CStr ''true''))\<rparr>"
    using T h4 by blast
  have c4': "libProcessRow ?sh 2 ?l2
      = Push \<lparr>prompt = ''Elaborate'', data = [], includeLastResult = True\<rparr>"
    using c4 by (simp add: cell_at_def)
  have c5: "\<exists>built. buildChainFromSheet ?ss ?sh ?al ?data = Built built" using T h5 by blast
  show ?thesis using h1 h2 c1' c2 c3' c4' c5 by simp
qed

text \<open>
  C9 as stated fails for the library's builder: the include cell \<open>YES\<close> normalizes to
  \<open>yes\<close>, and the step is built with the flag false.
\<close>

theorem showChainDialog_include_counterexample:
  "showChainDialogBuild (\<lambda>a. Inl (Error ''Range not found''))
        [[CStr ''Prompt'', CStr ''Range'', CStr ''Include''],
         [CStr ''Summarize'', CStr '''', CStr ''NO''],
         [CStr ''Elaborate'', CStr '''', CStr ''YES'']]
      = Built [\<lparr>prompt = ''Summarize'', data = [], includeLastResult = False\<rparr>,
               \<lparr>prompt = ''Elaborate'', data = [], includeLastResult = False\<rparr>]
   \<and> trim (toLowerCase (js_String (CStr ''YES''))) = ''yes''"
  by code_simp

section \<open>Facts about the execution loops\<close>

subsection \<open>The loop of fallback mode\<close>

lemma directLoop_length_ge:
  "length sent \<le> length (fst (executeChainDirectlyLoop api steps results prev sent))"
proof (induction steps arbitrary: results prev sent)
  case Nil
  then show ?case by simp
next
  case (Cons s rest)
  show ?case
  proof (cases "callClaudeAPI api (length sent) (directFullPrompt s prev)")
    case (Inl e)
    then show ?thesis by simp
  next
    case (Inr t)
    have "length (sent @ [directFullPrompt s prev])
        \<le> length (fst (executeChainDirectlyLoop api rest (results @ [t]) (Some t) (sent @ [directFullPrompt s prev])))"
      by (rule Cons.IH)
    then show ?thesis using Inr by simp
  qed
qed


lemma directLoop_prefix:
  "j < length sent \<Longrightarrow> fst (executeChainDirectlyLoop api steps results prev sent) ! j = sent ! j"
proof (induction steps arbitrary: results prev sent)
  case Nil
  then show ?case by simp
next
  case (Cons s rest)
  show ?case
  proof (cases "callClaudeAPI api (length sent) (directFullPrompt s prev)")
    case (Inl e)
    then show ?thesis using Cons.prems by (simp add: nth_append)
  next
    case (Inr t)
    have "fst (executeChainDirectlyLoop api rest (results @ [t]) (Some t) (sent @ [directFullPrompt s prev])) ! j
        = (sent @ [directFullPrompt s prev]) ! j"
      using Cons.prems by (intro Cons.IH) simp
    then show ?thesis using Inr Cons.prems by (simp add: nth_append)
  qed
qed

lemma directLoop_first:
  "length sent < length (fst (executeChainDirectlyLoop api (s # rest) results prev sent))
   \<and> fst (executeChainDirectlyLoop api (s # rest) results prev sent) ! length sent
       = directFullPrompt s prev"
proof (cases "callClaudeAPI api (length sent) (directFullPrompt s prev)")
  case (Inl e)
  then show ?thesis by simp
next
  case (Inr t)
  let ?sent' = "sent @ [directFullPrompt s prev]"
  have 1: "length ?sent' \<le> length (fst (executeChainDirectlyLoop api rest (results @ [t]) (Some t) ?sent'))"
    by (rule directLoop_length_ge)
  have 2: "fst (executeChainDirectlyLoop api rest (results @ [t]) (Some t) ?sent') ! length sent
      = ?sent' ! length sent"
    by (rule directLoop_prefix) simp
  show ?thesis using Inr 1 2 by simp
qed

lemma directLoop_next:
  assumes "Suc k < length steps"
    and "length sent + k < length (fst (executeChainDirectlyLoop api steps results prev sent))"
    and "api (length sent + k) (fst (executeChainDirectlyLoop api steps results prev sent) ! (length sent + k)) = Inr resp"
  shows "length sent + Suc k < length (fst (executeChainDirectlyLoop api steps results prev sent))
     \<and> fst (executeChainDirectlyLoop api steps results prev sent) ! (length sent + Suc k)
         = directFullPrompt (steps ! Suc k) (Some (first_text resp))"
  using assms
proof (induction steps arbitrary: k results prev sent)
  case Nil
  then show ?case by simp
next
  case (Cons s rest)
  let ?fp = "directFullPrompt s prev"
  let ?sent' = "sent @ [?fp]"
  show ?case
  proof (cases "api (length sent) ?fp")
    case (Inl e)
    then have run: "executeChainDirectlyLoop api (s # rest) results prev sent = (?sent', Inl e)"
      by (simp add: callClaudeAPI_def)
    then have "k = 0" using Cons.prems(2) by simp
    then show ?thesis using Cons.prems(3) run Inl by simp
  next
    case (Inr r0)
    let ?L = "executeChainDirectlyLoop api rest (results @ [first_text r0]) (Some (first_text r0)) ?sent'"
    have run: "executeChainDirectlyLoop api (s # rest) results prev sent = ?L"
      using Inr by (simp add: callClaudeAPI_def)
    show ?thesis
    proof (cases k)
      case 0
      have "fst ?L ! length sent = ?sent' ! length sent"
        by (rule directLoop_prefix) simp
      then have "fst ?L ! length sent = ?fp" by simp
      then have "resp = r0" using Cons.prems(3) run 0 Inr by simp
      obtain s' rest' where rest: "rest = s' # rest'"
        using Cons.prems(1) 0 by (cases rest) auto
      have "length ?sent' < length (fst ?L) \<and> fst ?L ! length ?sent' = directFullPrompt s' (Some (first_text r0))"
        unfolding rest by (rule directLoop_first)
      then show ?thesis using run 0 rest \<open>resp = r0\<close> by simp
    next
      case (Suc k')
      have a: "Suc k' < length rest" using Cons.prems(1) Suc by simp
      have b: "length ?sent' + k' < length (fst ?L)" using Cons.prems(2) run Suc by simp
      have c: "api (length ?sent' + k') (fst ?L ! (length ?sent' + k')) = Inr resp"
        using Cons.prems(3) run Suc by simp
      have "length ?sent' + Suc k' < length (fst ?L)
         \<and> fst ?L ! (length ?sent' + Suc k') = directFullPrompt (rest ! Suc k') (Some (first_text resp))"
        using a b c by (rule Cons.IH)
      then show ?thesis using run Suc by simp
    qed
  qed
qed




subsection \<open>The loop of library mode\<close>

lemma sendPrompt_eq:
  "sendPrompt api k p d =
     (case api k (sendPromptFullPrompt p d) of
        Inl e \<Rightarrow> Inl (wrapRequestError e)
      | Inr r \<Rightarrow> Inr \<lparr>response = first_text r, rawResponse = r\<rparr>)"
  by (simp add: sendPrompt_def sendRequest_def wrapRequestError_def split: sum.splits)

lemma libLoop_length_ge:
  "length sent \<le> length (fst (executePromptChainLoop api steps results prev sent))"
proof (induction steps arbitrary: results prev sent)
  case Nil
  then show ?case by simp
next
  case (Cons s rest)
  show ?case
  proof (cases "sendPrompt api (length sent) (enhancedPrompt s prev) (data s)")
    case (Inl e)
    then show ?thesis by simp
  next
    case (Inr t)
    have "length (sent @ [sendPromptFullPrompt (enhancedPrompt s prev) (data s)])
        \<le> length (fst (executePromptChainLoop api rest (results @ [t]) (Some (response t)) (sent @ [sendPromptFullPrompt (enhancedPrompt s prev) (data s)])))"
      by (rule Cons.IH)
    then show ?thesis using Inr by simp
  qed
qed


lemma libLoop_prefix:
  "j < length sent \<Longrightarrow> fst (executePromptChainLoop api steps results prev sent) ! j = sent ! j"
proof (induction steps arbitrary: results prev sent)
  case Nil
  then show ?case by simp
next
  case (Cons s rest)
  show ?case
  proof (cases "sendPrompt api (length sent) (enhancedPrompt s prev) (data s)")
    case (Inl e)
    then show ?thesis using Cons.prems by (simp add: nth_append)
  next
    case (Inr t)
    have "fst (executePromptChainLoop api rest (results @ [t]) (Some (response t)) (sent @ [sendPromptFullPrompt (enhancedPrompt s prev) (data s)])) ! j
        = (sent @ [sendPromptFullPrompt (enhancedPrompt s prev) (data s)]) ! j"
      using Cons.prems by (intro Cons.IH) simp
    then show ?thesis using Inr Cons.prems by (simp add: nth_append)
  qed
qed

lemma libLoop_first:
  "length sent < length (fst (executePromptChainLoop api (s # rest) results prev sent))
   \<and> fst (executePromptChainLoop api (s # rest) results prev sent) ! length sent
       = sendPromptFullPrompt (enhancedPrompt s prev) (data s)"
proof (cases "sendPrompt api (length sent) (enhancedPrompt s prev) (data s)")
  case (Inl e)
  then show ?thesis by simp
next
  case (Inr t)
  let ?sent' = "sent @ [sendPromptFullPrompt (enhancedPrompt s prev) (data s)]"
  have 1: "length ?sent' \<le> length (fst (executePromptChainLoop api rest (results @ [t]) (Some (response t)) ?sent'))"
    by (rule libLoop_length_ge)
  have 2: "fst (executePromptChainLoop api rest (results @ [t]) (Some (response t)) ?sent') ! length sent
      = ?sent' ! length sent"
    by (rule libLoop_prefix) simp
  show ?thesis using Inr 1 2 by simp
qed

lemma libLoop_next:
  assumes "Suc k < length steps"
    and "length sent + k < length (fst (executePromptChainLoop api steps results prev sent))"
    and "api (length sent + k) (fst (executePromptChainLoop api steps results prev sent) ! (length sent + k)) = Inr resp"
  shows "length sent + Suc k < length (fst (executePromptChainLoop api steps results prev sent))
     \<and> fst (executePromptChainLoop api steps results prev sent) ! (length sent + Suc k)
         = sendPromptFullPrompt (enhancedPrompt (steps ! Suc k) (Some (first_text resp))) (data (steps ! Suc k))"
  using assms
proof (induction steps arbitrary: k results prev sent)
  case Nil
  then show ?case by simp
next
  case (Cons s rest)
  let ?fp = "sendPromptFullPrompt (enhancedPrompt s prev) (data s)"
  let ?sent' = "sent @ [?fp]"
  show ?case
  proof (cases "api (length sent) ?fp")
    case (Inl e)
    then have run: "executePromptChainLoop api (s # rest) results prev sent = (?sent', Inl (wrapRequestError e))"
      by (simp add: sendPrompt_eq)
    then have "k = 0" using Cons.prems(2) by simp
    then show ?thesis using Cons.prems(3) run Inl by simp
  next
    case (Inr r0)
    let ?L = "executePromptChainLoop api rest (results @ [\<lparr>response = first_text r0, rawResponse = r0\<rparr>]) (Some (first_text r0)) ?sent'"
    have run: "executePromptChainLoop api (s # rest) results prev sent = ?L"
      using Inr by (simp add: sendPrompt_eq)
    show ?thesis
    proof (cases k)
      case 0
      have "fst ?L ! length sent = ?sent' ! length sent"
        by (rule libLoop_prefix) simp
      then have "fst ?L ! length sent = ?fp" by simp
      then have "resp = r0" using Cons.prems(3) run 0 Inr by simp
      obtain s' rest' where rest: "rest = s' # rest'"
        using Cons.prems(1) 0 by (cases rest) auto
      have "length ?sent' < length (fst ?L) \<and> fst ?L ! length ?sent' = sendPromptFullPrompt (enhancedPrompt s' (Some (first_text r0))) (data s')"
        unfolding rest by (rule libLoop_first)
      then show ?thesis using run 0 rest \<open>resp = r0\<close> by simp
    next
      case (Suc k')
      have a: "Suc k' < length rest" using Cons.prems(1) Suc by simp
      have b: "length ?sent' + k' < length (fst ?L)" using Cons.prems(2) run Suc by simp
      have c: "api (length ?sent' + k') (fst ?L ! (length ?sent' + k')) = Inr resp"
        using Cons.prems(3) run Suc by simp
      have "length ?sent' + Suc k' < length (fst ?L)
         \<and> fst ?L ! (length ?sent' + Suc k') = sendPromptFullPrompt (enhancedPrompt (rest ! Suc k') (Some (first_text resp))) (data (rest ! Suc k'))"
        using a b c by (rule Cons.IH)
      then show ?thesis using run Suc by simp
    qed
  qed
qed




subsection \<open>Failure of a step\<close>




subsection \<open>The previous result in the next prompt\<close>

text \<open>
  C4, as the code has it. When step \<open>i\<close> completed with a response text that is not
  empty and step \<open>i + 1\<close> has \<open>includeLastResult\<close> set, the prompt sent for step
  \<open>i + 1\<close> is the step's prompt, then the previous result section with the response text
  verbatim, then the data section: in fallback mode under the heading
  \<open>Result from previous step:\<close>, in library mode under \<open>Result of the previous step:\<close>.
\<close>

theorem previous_result_in_next_prompt:
  assumes "executeChainDirectly api chain = (sent, out)"
    and "executePromptChain api (ChainArray chain) = (lsent, lout)"
  shows "(\<forall>i resp. Suc i < length chain \<and> i < length sent \<and> api i (sent ! i) = Inr resp
            \<and> includeLastResult (chain ! Suc i) \<and> first_text resp \<noteq> [] \<longrightarrow>
          Suc i < length sent
          \<and> sent ! Suc i
              = prompt (chain ! Suc i) @ NL @ NL @ ''Result from previous step:'' @ NL @ first_text resp
                  @ (if data (chain ! Suc i) = [] then [] else dataSection (data (chain ! Suc i))))
     \<and> (\<forall>i resp. Suc i < length chain \<and> i < length lsent \<and> api i (lsent ! i) = Inr resp
            \<and> includeLastResult (chain ! Suc i) \<and> first_text resp \<noteq> [] \<longrightarrow>
          Suc i < length lsent
          \<and> lsent ! Suc i
              = prompt (chain ! Suc i) @ NL @ NL @ ''Result of the previous step:'' @ NL @ first_text resp
                  @ NL @ NL @ ''Here is the data from the table:'' @ NL @ NL
                  @ formatDataAsTable (data (chain ! Suc i)))"
proof (rule conjI; intro allI impI)
  fix i resp
  assume a: "Suc i < length chain \<and> i < length sent \<and> api i (sent ! i) = Inr resp
            \<and> includeLastResult (chain ! Suc i) \<and> first_text resp \<noteq> []"
  let ?D = "executeChainDirectlyLoop api chain [] None []"
  have D: "?D = (sent, out)" using assms(1) by (simp add: executeChainDirectly_def)
  have "length ([]::string list) + Suc i < length (fst ?D)
     \<and> fst ?D ! (length ([]::string list) + Suc i)
         = directFullPrompt (chain ! Suc i) (Some (first_text resp))"
    by (rule directLoop_next) (use a D in simp_all)
  then have n: "Suc i < length sent"
    and p: "sent ! Suc i = directFullPrompt (chain ! Suc i) (Some (first_text resp))"
    using D by simp_all
  have "directFullPrompt (chain ! Suc i) (Some (first_text resp))
      = prompt (chain ! Suc i) @ NL @ NL @ ''Result from previous step:'' @ NL @ first_text resp
                  @ (if data (chain ! Suc i) = [] then [] else dataSection (data (chain ! Suc i)))"
    using a by (simp add: directFullPrompt_def dataSection_def table_text_nonempty Let_def)
  then show "Suc i < length sent
          \<and> sent ! Suc i
              = prompt (chain ! Suc i) @ NL @ NL @ ''Result from previous step:'' @ NL @ first_text resp
                  @ (if data (chain ! Suc i) = [] then [] else dataSection (data (chain ! Suc i)))"
    using n p by simp
next
  fix i resp
  assume a: "Suc i < length chain \<and> i < length lsent \<and> api i (lsent ! i) = Inr resp
            \<and> includeLastResult (chain ! Suc i) \<and> first_text resp \<noteq> []"
  then have ne: "chain \<noteq> []" by auto
  let ?L = "executePromptChainLoop api chain [] None []"
  have L: "?L = (lsent, lout)" using assms(2) ne by (simp add: executePromptChain_def)
  have "length ([]::string list) + Suc i < length (fst ?L)
     \<and> fst ?L ! (length ([]::string list) + Suc i)
         = sendPromptFullPrompt (enhancedPrompt (chain ! Suc i) (Some (first_text resp))) (data (chain ! Suc i))"
    by (rule libLoop_next) (use a L in simp_all)
  then have n: "Suc i < length lsent"
    and p: "lsent ! Suc i
       = sendPromptFullPrompt (enhancedPrompt (chain ! Suc i) (Some (first_text resp))) (data (chain ! Suc i))"
    using L by simp_all
  have "sendPromptFullPrompt (enhancedPrompt (chain ! Suc i) (Some (first_text resp))) (data (chain ! Suc i))
      = prompt (chain ! Suc i) @ NL @ NL @ ''Result of the previous step:'' @ NL @ first_text resp
                  @ NL @ NL @ ''Here is the data from the table:'' @ NL @ NL
                  @ formatDataAsTable (data (chain ! Suc i))"
    using a by (simp add: sendPromptFullPrompt_def enhancedPrompt_def)
  then show "Suc i < length lsent
          \<and> lsent ! Suc i
              = prompt (chain ! Suc i) @ NL @ NL @ ''Result of the previous step:'' @ NL @ first_text resp
                  @ NL @ NL @ ''Here is the data from the table:'' @ NL @ NL
                  @ formatDataAsTable (data (chain ! Suc i))"
    using n p by simp
qed

theorem previous_result_in_next_prompt_witness:
  "executeChainDirectly (\<lambda>k p. Inr \<lparr>first_text = ''Sales rose.''\<rparr>)
      [\<lparr>prompt = ''Summarize'', data = [[CStr ''x'', CNum 1]], includeLastResult = False\<rparr>,
       \<lparr>prompt = ''Elaborate'', data = [], includeLastResult = True\<rparr>]
     = ([''Summarize'' @ NL @ NL @ ''Here is the data from the table:'' @ NL @ NL @ ''x'' @ TAB @ ''1'' @ NL,
         ''Elaborate'' @ NL @ NL @ ''Result from previous step:'' @ NL @ ''Sales rose.''],
        Inr [''Sales rose.'', ''Sales rose.''])
   \<and> executePromptChain (\<lambda>k p. Inr \<lparr>first_text = ''Sales rose.''\<rparr>)
      (ChainArray [\<lparr>prompt = ''Summarize'', data = [[CStr ''x'', CNum 1]], includeLastResult = False\<rparr>,
       \<lparr>prompt = ''Elaborate'', data = [], includeLastResult = True\<rparr>])
     = ([''Summarize'' @ NL @ NL @ ''Here is the data from the table:'' @ NL @ NL @ ''x'' @ TAB @ ''1'' @ NL,
         ''Elaborate'' @ NL @ NL @ ''Result of the previous step:'' @ NL @ ''Sales rose.''
           @ NL @ NL @ ''Here is the data from the table:'' @ NL @ NL @ ''No data available''],
        Inr [\<lparr>response = ''Sales rose.'', rawResponse = \<lparr>first_text = ''Sales rose.''\<rparr>\<rparr>,
             \<lparr>response = ''Sales rose.'', rawResponse = \<lparr>first_text = ''Sales rose.''\<rparr>\<rparr>])"
proof -
  let ?api = "\<lambda>(k::nat) (p::string). (Inr \<lparr>first_text = ''Sales rose.''\<rparr> :: js_error + api_response)"
  let ?s0 = "\<lparr>prompt = ''Summarize'', data = [[CStr ''x'', CNum 1]], includeLastResult = False\<rparr>"
  let ?s1 = "\<lparr>prompt = ''Elaborate'', data = [], includeLastResult = True\<rparr>"
  let ?p0 = "''Summarize'' @ NL @ NL @ ''Here is the data from the table:'' @ NL @ NL @ ''x'' @ TAB @ ''1'' @ NL"
  let ?S = "[?p0, ''Elaborate'' @ NL @ NL @ ''Result from previous step:'' @ NL @ ''Sales rose.'']"
  let ?LS = "[?p0, ''Elaborate'' @ NL @ NL @ ''Result of the previous step:'' @ NL @ ''Sales rose.''
           @ NL @ NL @ ''Here is the data from the table:'' @ NL @ NL @ ''No data available'']"
  let ?R = "[\<lparr>response = ''Sales rose.'', rawResponse = \<lparr>first_text = ''Sales rose.''\<rparr>\<rparr>,
             \<lparr>response = ''Sales rose.'', rawResponse = \<lparr>first_text = ''Sales rose.''\<rparr>\<rparr>]"
  have r1: "executeChainDirectly ?api [?s0, ?s1] = (?S, Inr [''Sales rose.'', ''Sales rose.''])"
    by code_simp
  have r2: "executePromptChain ?api (ChainArray [?s0, ?s1]) = (?LS, Inr ?R)" by code_simp
  note T = previous_result_in_next_prompt [OF r1 r2]
  have h: "Suc 0 < length [?s0, ?s1] \<and> 0 < length ?S \<and> ?api 0 (?S ! 0) = Inr \<lparr>first_text = ''Sales rose.''\<rparr>
       \<and> includeLastResult ([?s0, ?s1] ! Suc 0) \<and> first_text \<lparr>first_text = ''Sales rose.''\<rparr> \<noteq> []"
    by simp
  have h': "Suc 0 < length [?s0, ?s1] \<and> 0 < length ?LS \<and> ?api 0 (?LS ! 0) = Inr \<lparr>first_text = ''Sales rose.''\<rparr>
       \<and> includeLastResult ([?s0, ?s1] ! Suc 0) \<and> first_text \<lparr>first_text = ''Sales rose.''\<rparr> \<noteq> []"
    by simp
  have c1: "Suc 0 < length ?S" using T h by blast
  have c2: "Suc 0 < length ?LS" using T h' by blast
  show ?thesis using r1 r2 c1 c2 by simp
qed

text \<open>
  C4 as stated fails for an empty response text: \<open>previousResult && ...\<close> is false for
  the empty text, and the prompt of the next step is sent with no previous result section.
\<close>

theorem empty_previous_result_counterexample:
  "executeChainDirectly (\<lambda>k p. Inr \<lparr>first_text = ''''\<rparr>)
      [\<lparr>prompt = ''Summarize'', data = [], includeLastResult = False\<rparr>,
       \<lparr>prompt = ''Elaborate'', data = [], includeLastResult = True\<rparr>]
     = ([''Summarize'', ''Elaborate''], Inr ['''', ''''])
   \<and> ''Elaborate'' \<noteq> ''Elaborate'' @ NL @ NL @ ''Result from previous step:'' @ NL @ ''''"
  by code_simp

subsection \<open>Library mode and fallback mode\<close>





end
